theory Spec2Isabelle
  imports Main "HOL-Library.Mapping" "HOL-Library.AList_Mapping"
begin

section \<open>The parsed proto document\<close>

text \<open>
  The converter consumes the syntax tree of the proto parser. Only the fields that
  \<^verbatim>\<open>convert.go\<close> reads are kept. A nil comment pointer is \<open>None\<close>. Go's \<^verbatim>\<open>int\<close> is
  modelled as \<open>int\<close>: the converter only compares and prints these numbers.
\<close>

record position =
  Line :: int
  Column :: int

datatype comment = Comment (Lines: "string list")

datatype literal =
  Literal (literal_Source: string) (literal_IsString: bool)
          (literal_OrderedMap: "named_literal list")
and named_literal =
  NamedLiteral (named_Name: string) (named_Literal: literal)

datatype proto_option =
  Option (option_Position: position) (option_Comment: "comment option")
         (option_Name: string) (option_Constant: literal)

datatype proto_package =
  Package (package_Comment: "comment option") (package_Name: string)

datatype proto_import = Import (import_Filename: string)

datatype normal_field =
  NormalField (nf_Position: position) (nf_Comment: "comment option") (nf_Name: string)
              (nf_Type: string) (nf_Sequence: int) (nf_Repeated: bool)
              (nf_Options: "proto_option list")

text \<open>A map field has no repeated flag in the parser's tree.\<close>

datatype map_field =
  MapField (mf_Position: position) (mf_Comment: "comment option") (mf_Name: string)
           (mf_Type: string) (mf_Sequence: int) (mf_KeyType: string)
           (mf_Options: "proto_option list")

text \<open>
  \<open>visitee\<close> is the parser's interface \<^verbatim>\<open>proto.Visitee\<close>; \<open>VOther t\<close> stands for every
  element kind the converter has no case for (oneof, reserved, extensions, ...), \<open>t\<close>
  being what \<^verbatim>\<open>%T\<close> prints for it.
\<close>

datatype visitee =
    VSyntax
  | VPackage proto_package
  | VImport proto_import
  | VMessage proto_message
  | VEnum proto_enum
  | VService proto_service
  | VOption proto_option
  | VNormalField normal_field
  | VMapField map_field
  | VEnumField enum_field
  | VRPC proto_rpc
  | VComment comment
  | VOther string
and proto_message =
  Message (message_Position: position) (message_Comment: "comment option")
          (message_Name: string) (message_Elements: "visitee list")
and proto_enum =
  Enum (enum_Position: position) (enum_Comment: "comment option")
       (enum_Name: string) (enum_Elements: "visitee list")
and enum_field =
  EnumField (ef_Comment: "comment option") (ef_Name: string) (ef_Integer: int)
            (ef_Elements: "visitee list")
and proto_service =
  Service (service_Position: position) (service_Comment: "comment option")
          (service_Name: string) (service_Elements: "visitee list")
and proto_rpc =
  RPC (rpc_Position: position) (rpc_Comment: "comment option") (rpc_Name: string)
      (rpc_RequestType: string) (rpc_ReturnsType: string) (rpc_Elements: "visitee list")

text \<open>What \<^verbatim>\<open>%T\<close> prints for an element.\<close>

fun typeName :: "visitee \<Rightarrow> string" where
  "typeName VSyntax = ''*proto.Syntax''"
| "typeName (VPackage _) = ''*proto.Package''"
| "typeName (VImport _) = ''*proto.Import''"
| "typeName (VMessage _) = ''*proto.Message''"
| "typeName (VEnum _) = ''*proto.Enum''"
| "typeName (VService _) = ''*proto.Service''"
| "typeName (VOption _) = ''*proto.Option''"
| "typeName (VNormalField _) = ''*proto.NormalField''"
| "typeName (VMapField _) = ''*proto.MapField''"
| "typeName (VEnumField _) = ''*proto.EnumField''"
| "typeName (VRPC _) = ''*proto.RPC''"
| "typeName (VComment _) = ''*proto.Comment''"
| "typeName (VOther t) = t"

section \<open>Library functions\<close>

text \<open>
  The converter calls into Go's standard library and into \<^verbatim>\<open>snaker\<close>. Those functions
  are parameters of the model: every theorem below holds whatever they compute.
  \<^item> \<open>ToUpper\<close> is \<^verbatim>\<open>strings.ToUpper\<close>;
  \<^item> \<open>Quote\<close> is what the verb \<^verbatim>\<open>%q\<close> prints for a string;
  \<^item> \<open>Sprintf0\<close> is what \<^verbatim>\<open>fmt.Fprintf(w, s)\<close> writes when the string \<open>s\<close> is used as
    the format and no operand follows (the converter does this with two computed strings);
  \<^item> \<open>ForceCamelIdentifier\<close> and \<open>CamelToSnake\<close> are the two \<^verbatim>\<open>snaker\<close> functions.
\<close>

record golib =
  ToUpper :: "string \<Rightarrow> string"
  Quote :: "string \<Rightarrow> string"
  Sprintf0 :: "string \<Rightarrow> string"
  ForceCamelIdentifier :: "string \<Rightarrow> string"
  CamelToSnake :: "string \<Rightarrow> string"

definition tab :: char where "tab = CHR 0x09"
definition dquote :: char where "dquote = CHR 0x22"
definition backslash :: char where "backslash = CHR 0x5C"
definition backtick :: char where "backtick = CHR 0x60"

text \<open>The verb \<^verbatim>\<open>%d\<close>: decimal digits, with a minus sign for a negative number.\<close>

fun natDigits :: "nat \<Rightarrow> string" where
  "natDigits n =
     (if n < 10 then [''0123456789'' ! n]
      else natDigits (n div 10) @ [''0123456789'' ! (n mod 10)])"

declare natDigits.simps [simp del]

definition itoa :: "int \<Rightarrow> string" where
  "itoa i = (if i < 0 then CHR ''-'' # natDigits (nat (- i)) else natDigits (nat i))"

text \<open>\<^verbatim>\<open>filepath.Base\<close> with \<^verbatim>\<open>/\<close> as the separator.\<close>

definition Base :: "string \<Rightarrow> string" where
  "Base path =
     (if path = [] then ''.''
      else let stripped = rev (dropWhile (\<lambda>c. c = CHR ''/'') (rev path));
               element = rev (takeWhile (\<lambda>c. c \<noteq> CHR ''/'') (rev stripped))
           in if element = [] then ''/'' else element)"

section \<open>The builder\<close>

text \<open>
  \<open>error\<close> is Go's error value, carrying its message; \<open>NilPointer\<close> is the panic of a
  nil dereference. \<open>stderr\<close> is the diagnostics stream \<^verbatim>\<open>os.Stderr\<close>, one entry per
  \<^verbatim>\<open>Fprintln\<close>; it is kept with the builder so that every write is a state update.
\<close>

datatype error = Errorf string | NilPointer

fun errorString :: "error \<Rightarrow> string" where
  "errorString (Errorf s) = s"
| "errorString NilPointer = ''runtime error: invalid memory address or nil pointer dereference''"

record builder =
  filename :: string
  translatedDeclarations :: "string list"
  pkg :: "proto_package option"
  pkgOpts :: "proto_option list"
  imports' :: "proto_import list"
  importsUsed :: "(string, bool) mapping"
  stderr :: "string list"

definition tabs :: "nat \<Rightarrow> string" where
  "tabs indent = replicate indent tab"

definition commentLines :: "nat \<Rightarrow> comment option \<Rightarrow> string" where
  "commentLines indent comments =
     (case comments of
        None \<Rightarrow> []
      | Some c \<Rightarrow> concat (map (\<lambda>l. tabs indent @ ''//'' @ l @ ''\<newline>'') (Lines c)))"

text \<open>
  \<^verbatim>\<open>format(w, indent, comments, s, args...)\<close>: \<open>s\<close> is the format string and \<open>out\<close> is
  what \<^verbatim>\<open>Fprintf(w, s, args...)\<close> writes for it.
\<close>

definition format :: "string \<Rightarrow> nat \<Rightarrow> comment option \<Rightarrow> string \<Rightarrow> string \<Rightarrow> string" where
  "format w indent comments s out =
     (let w1 = w @ commentLines indent comments
      in if s = [] then w1 else w1 @ tabs indent @ out)"

definition formatError :: "builder \<Rightarrow> position \<Rightarrow> string \<Rightarrow> error" where
  "formatError b pos msg =
     Errorf (filename b @ '':'' @ itoa (Line pos) @ '':'' @ itoa (Column pos) @ '': '' @ msg)"

text \<open>\<^verbatim>\<open>fmt.Fprintln(os.Stderr, err)\<close>.\<close>

definition warn :: "builder \<Rightarrow> error \<Rightarrow> builder" where
  "warn b e = b\<lparr>stderr := stderr b @ [errorString e]\<rparr>"

section \<open>Types and message fields\<close>

definition goType :: "string \<Rightarrow> string" where
  "goType fieldType =
     (if fieldType = ''bool'' then ''bool''
      else if fieldType = ''string'' then ''string''
      else if fieldType = ''bytes'' then ''[]byte''
      else if fieldType = ''double'' then ''float64''
      else if fieldType = ''float'' then ''float32''
      else if fieldType = ''int32'' then ''int''
      else if fieldType = ''sint32'' \<or> fieldType = ''sfixed32'' then ''int32''
      else if fieldType = ''int64'' \<or> fieldType = ''sint64'' \<or> fieldType = ''sfixed64''
        then ''int64''
      else if fieldType = ''uint32'' \<or> fieldType = ''fixed32'' then ''uint32''
      else if fieldType = ''uint64'' \<or> fieldType = ''fixed64'' then ''uint64''
      else fieldType)"

definition scalarNames :: "string list" where
  "scalarNames =
     [''bool'', ''string'', ''bytes'', ''double'', ''float'', ''int32'', ''sint32'',
      ''sfixed32'', ''int64'', ''sint64'', ''sfixed64'', ''uint32'', ''fixed32'',
      ''uint64'', ''fixed64'']"

text \<open>
  One diagnostic of the form \<^verbatim>\<open>unhandled <kind> option "<name>"\<close>, as the converter
  prints it for an option it does not translate.
\<close>

definition unhandled :: "golib \<Rightarrow> builder \<Rightarrow> string \<Rightarrow> proto_option \<Rightarrow> builder" where
  "unhandled L b kind o' =
     warn b (formatError b (option_Position o')
       (''unhandled '' @ kind @ '' option '' @ Quote L (option_Name o')))"

text \<open>
  \<^verbatim>\<open>handleMessageField\<close> writes one struct member to \<open>w\<close>. The result is the error (if
  any), the builder and the text written so far.
\<close>

definition handleMessageField ::
  "golib \<Rightarrow> builder \<Rightarrow> string \<Rightarrow> visitee \<Rightarrow> error option \<times> builder \<times> string" where
  \<open>handleMessageField L b w field =
     (case (case field of
              VNormalField ft \<Rightarrow>
                Inr (nf_Name ft, goType (nf_Type ft), nf_Sequence ft, nf_Comment ft,
                     nf_Repeated ft, nf_Options ft)
            | VMapField ft \<Rightarrow>
                Inr (mf_Name ft,
                     ''map['' @ goType (mf_KeyType ft) @ '']'' @ goType (mf_Type ft),
                     mf_Sequence ft, mf_Comment ft, False, mf_Options ft)
            | _ \<Rightarrow> Inl (Errorf (''unhandled message field type '' @ typeName field))) of
        Inl err \<Rightarrow> (Some err, b, w)
      | Inr (name, typ, sequence, comment, repeated, options) \<Rightarrow>
          let typ = (if repeated then ''[]'' @ typ else typ);
              b = fold (\<lambda>o' b. unhandled L b ''field'' o') options b;
              w = format w 1 comment ''%s %s'' (ForceCamelIdentifier L name @ '' '' @ typ);
              w = format w 0 None '' `pb:"%d" json:"%s"`\<newline>''
                    ('' `pb:"'' @ itoa sequence @ ''" json:"'' @ CamelToSnake L name
                       @ ''"`\<newline>'')
          in (None, b, w))\<close>

section \<open>Enums\<close>

text \<open>
  The first loop of \<^verbatim>\<open>handleEnum\<close>: \<open>i\<close> is the index into \<^verbatim>\<open>e.Elements\<close>. It decides
  \<open>outputIota\<close>, reports enum options and stops at an element of another kind.
\<close>

fun enumCheck ::
  "golib \<Rightarrow> builder \<Rightarrow> proto_enum \<Rightarrow> nat \<Rightarrow> bool \<Rightarrow> visitee list
     \<Rightarrow> error option \<times> builder \<times> bool" where
  "enumCheck L b e i outputIota [] = (None, b, outputIota)"
| "enumCheck L b e i outputIota (c # cs) =
     (case c of
        VEnumField ef \<Rightarrow>
          enumCheck L b e (Suc i) (if int i \<noteq> ef_Integer ef then False else outputIota) cs
      | VOption o' \<Rightarrow> enumCheck L (unhandled L b ''enum'' o') e (Suc i) outputIota cs
      | _ \<Rightarrow>
          (Some (formatError b (enum_Position e)
                   (''unexpected type '' @ typeName c @ '' in enum, expected enum field'')),
           b, outputIota))"

text \<open>The options of one enum value are reported, nothing else is done with them.\<close>

definition enumValueOptions :: "golib \<Rightarrow> builder \<Rightarrow> visitee list \<Rightarrow> builder" where
  "enumValueOptions L b elems =
     fold (\<lambda>x b. case x of VOption o' \<Rightarrow> unhandled L b ''enumvalue'' o' | _ \<Rightarrow> b) elems b"

text \<open>The second loop of \<^verbatim>\<open>handleEnum\<close>, again with the index \<open>i\<close> into the elements.\<close>

fun enumOutput ::
  "golib \<Rightarrow> builder \<Rightarrow> string \<Rightarrow> proto_enum \<Rightarrow> bool \<Rightarrow> nat \<Rightarrow> visitee list
     \<Rightarrow> builder \<times> string" where
  "enumOutput L b w e outputIota i [] = (b, w)"
| "enumOutput L b w e outputIota i (c # cs) =
     (case c of
        VEnumField ef \<Rightarrow>
          let b = enumValueOptions L b (ef_Elements ef);
              w = (if \<not> outputIota then
                     format w 1 (ef_Comment ef) ''%s %s = %d\<newline>''
                       (ef_Name ef @ '' '' @ enum_Name e @ '' = '' @ itoa (ef_Integer ef)
                          @ ''\<newline>'')
                   else if i = 0 then
                     format w 1 (ef_Comment ef) ''%s %s = iota\<newline>''
                       (ef_Name ef @ '' '' @ enum_Name e @ '' = iota\<newline>'')
                   else
                     format w 1 (ef_Comment ef) ''%s\<newline>'' (ef_Name ef @ ''\<newline>''))
          in enumOutput L b w e outputIota (Suc i) cs
      | _ \<Rightarrow> enumOutput L b w e outputIota (Suc i) cs)"

definition handleEnum :: "golib \<Rightarrow> builder \<Rightarrow> proto_enum \<Rightarrow> error option \<times> builder" where
  "handleEnum L b e =
     (let w = format [] 0 (enum_Comment e) ''type %s int\<newline>''
                (''type '' @ enum_Name e @ '' int\<newline>'');
          w = format w 0 None ''\<newline>const (\<newline>'' ''\<newline>const (\<newline>''
      in case enumCheck L b e 0 True (enum_Elements e) of
           (Some err, b, outputIota) \<Rightarrow> (Some err, b)
         | (None, b, outputIota) \<Rightarrow>
             (case enumOutput L b w e outputIota 0 (enum_Elements e) of
                (b, w) \<Rightarrow>
                  let w = format w 0 None '')'' '')''
                  in (None, b\<lparr>translatedDeclarations := translatedDeclarations b @ [w]\<rparr>)))"

section \<open>Messages\<close>

text \<open>
  The loop of \<^verbatim>\<open>handleMessage\<close> over \<^verbatim>\<open>m.Elements\<close>. For a nested enum the converter
  calls \<^verbatim>\<open>handleEnum\<close> and drops the error it returns.
\<close>

fun messageElements ::
  "golib \<Rightarrow> builder \<Rightarrow> string \<Rightarrow> proto_message \<Rightarrow> visitee list
     \<Rightarrow> error option \<times> builder \<times> string" where
  "messageElements L b w m [] = (None, b, w)"
| "messageElements L b w m (e # es) =
     (case e of
        VNormalField f \<Rightarrow>
          (case handleMessageField L b w (VNormalField f) of
             (Some err, b, w) \<Rightarrow>
               (Some (formatError b (nf_Position f)
                        (''error with message field: '' @ errorString err)), b, w)
           | (None, b, w) \<Rightarrow> messageElements L b w m es)
      | VEnum en \<Rightarrow> messageElements L (snd (handleEnum L b en)) w m es
      | VComment c \<Rightarrow> messageElements L b (format w 1 (Some c) [] []) m es
      | VMapField mf \<Rightarrow>
          (case handleMessageField L b w (VMapField mf) of
             (Some err, b, w) \<Rightarrow>
               (Some (formatError b (mf_Position mf)
                        (''error with message field: '' @ errorString err)), b, w)
           | (None, b, w) \<Rightarrow> messageElements L b w m es)
      | VOption o' \<Rightarrow> messageElements L (unhandled L b ''message'' o') w m es
      | _ \<Rightarrow>
          (Some (formatError b (message_Position m)
                   (''unexpected type '' @ typeName e @ '' in message'')), b, w))"

definition handleMessage :: "golib \<Rightarrow> builder \<Rightarrow> proto_message \<Rightarrow> error option \<times> builder" where
  "handleMessage L b m =
     (let w = format [] 0 (message_Comment m) ''type %s struct {\<newline>''
                (''type '' @ message_Name m @ '' struct {\<newline>'')
      in case messageElements L b w m (message_Elements m) of
           (Some err, b, w) \<Rightarrow> (Some err, b)
         | (None, b, w) \<Rightarrow>
             let w = format w 0 None ''}'' ''}''
             in (None, b\<lparr>translatedDeclarations := translatedDeclarations b @ [w]\<rparr>))"

section \<open>Services\<close>

definition handleLiteralString :: "literal \<Rightarrow> error + string" where
  "handleLiteralString lit =
     (if \<not> literal_IsString lit then Inl (Errorf ''literal was expected to be a string'')
      else Inr (literal_Source lit))"

text \<open>
  The loop over the ordered map of a \<^verbatim>\<open>(google.api.http)\<close> option, on the variables
  \<open>method\<close>, \<open>url\<close> and \<open>body\<close>.
\<close>

fun orderedMap ::
  "golib \<Rightarrow> builder \<Rightarrow> proto_option \<Rightarrow> string \<times> string \<times> string \<Rightarrow> named_literal list
     \<Rightarrow> error + string \<times> string \<times> string" where
  "orderedMap L b opt (method, url, body) [] = Inr (method, url, body)"
| "orderedMap L b opt (method, url, body) (l # ls) =
     (if named_Name l = ''body'' then
        (case handleLiteralString (named_Literal l) of
           Inl err \<Rightarrow>
             Inl (formatError b (option_Position opt) ''option for body should be a string'')
         | Inr body \<Rightarrow> orderedMap L b opt (method, url, body) ls)
      else
        (case handleLiteralString (named_Literal l) of
           Inl err \<Rightarrow>
             Inl (formatError b (option_Position opt)
                    (''option for '' @ Quote L (named_Name l) @ '' should be a string (url)''))
         | Inr url \<Rightarrow> orderedMap L b opt (named_Name l, url, body) ls))"

text \<open>The annotation the converter writes for a verb, a path and a body.\<close>

definition httpMatch :: "golib \<Rightarrow> string \<Rightarrow> string \<Rightarrow> string \<Rightarrow> string \<Rightarrow> string" where
  "httpMatch L w method url body =
     (let w = format w 1 None ''// +gunk http.Match{\<newline>'' ''// +gunk http.Match{\<newline>'';
          w = format w 1 None ''//     Method: %q,\<newline>''
                (''//     Method: '' @ Quote L (ToUpper L method) @ '',\<newline>'');
          w = format w 1 None ''//     Path: %q,\<newline>''
                (''//     Path: '' @ Quote L url @ '',\<newline>'');
          w = (if body \<noteq> [] then
                 format w 1 None ''//     Body: %q,\<newline>''
                   (''//     Body: '' @ Quote L body @ '',\<newline>'')
               else w)
      in format w 1 None ''// }\<newline>'' ''// }\<newline>'')"

text \<open>
  The loop over the elements of one rpc; \<open>comment\<close> is the comment still to be written
  above the method.
\<close>

fun rpcElements ::
  "golib \<Rightarrow> builder \<Rightarrow> string \<Rightarrow> proto_rpc \<Rightarrow> comment option \<Rightarrow> visitee list
     \<Rightarrow> error option \<times> builder \<times> string \<times> comment option" where
  "rpcElements L b w r comment [] = (None, b, w, comment)"
| "rpcElements L b w r comment (x # xs) =
     (case x of
        VOption opt \<Rightarrow>
          if option_Name opt = ''(google.api.http)'' then
            (let literal = option_Constant opt
             in if literal_OrderedMap literal = [] then
                  (Some (formatError b (option_Position opt) ''expected option to be a map''),
                   b, w, comment)
                else
                  (case orderedMap L b opt ([], [], []) (literal_OrderedMap literal) of
                     Inl err \<Rightarrow> (Some err, b, w, comment)
                   | Inr (method, url, body) \<Rightarrow>
                       if method \<noteq> [] \<and> url \<noteq> [] then
                         (let w = (if comment \<noteq> None
                                   then format w 1 comment ''//\<newline>'' ''//\<newline>'' else w);
                              w = httpMatch L w method url body;
                              b = b\<lparr>importsUsed :=
                                     Mapping.update ''github.com/gunk/opt/http'' True (importsUsed b)\<rparr>
                          in rpcElements L b w r None xs)
                       else rpcElements L b w r comment xs))
          else rpcElements L (unhandled L b ''method'' opt) w r comment xs
      | _ \<Rightarrow>
          (Some (formatError b (rpc_Position r)
                   (''unexpected type '' @ typeName x @ '' in service rpc, expected option'')),
           b, w, comment))"

text \<open>The loop of \<^verbatim>\<open>handleService\<close> over \<^verbatim>\<open>s.Elements\<close>, with its index \<open>i\<close>.\<close>

fun serviceElements ::
  "golib \<Rightarrow> builder \<Rightarrow> string \<Rightarrow> proto_service \<Rightarrow> nat \<Rightarrow> visitee list
     \<Rightarrow> error option \<times> builder \<times> string" where
  "serviceElements L b w s i [] = (None, b, w)"
| "serviceElements L b w s i (e # es) =
     (case e of
        VRPC r \<Rightarrow>
          (let w = (if i > 0 \<and> (rpc_Comment r \<noteq> None \<or> rpc_Elements r \<noteq> [])
                    then format w 0 None ''\<newline>'' ''\<newline>'' else w)
           in case rpcElements L b w r (rpc_Comment r) (rpc_Elements r) of
                (Some err, b, w, comment) \<Rightarrow> (Some err, b, w)
              | (None, b, w, comment) \<Rightarrow>
                  let requestType = (if rpc_RequestType r = ''google.protobuf.Empty''
                                     then [] else rpc_RequestType r);
                      returnsType = (if rpc_ReturnsType r = ''google.protobuf.Empty''
                                     then [] else rpc_ReturnsType r);
                      w = format w 1 comment ''%s(%s) %s\<newline>''
                            (rpc_Name r @ ''('' @ requestType @ '') '' @ returnsType
                               @ ''\<newline>'')
                  in serviceElements L b w s (Suc i) es)
      | VOption o' \<Rightarrow> serviceElements L (unhandled L b ''service'' o') w s (Suc i) es
      | _ \<Rightarrow>
          (Some (formatError b (service_Position s)
                   (''unexpected type '' @ typeName e @ '' in service, expected rpc'')),
           b, w))"

definition handleService :: "golib \<Rightarrow> builder \<Rightarrow> proto_service \<Rightarrow> error option \<times> builder" where
  "handleService L b s =
     (let w = format [] 0 (service_Comment s) ''type %s interface {\<newline>''
                (''type '' @ service_Name s @ '' interface {\<newline>'')
      in case serviceElements L b w s 0 (service_Elements s) of
           (Some err, b, w) \<Rightarrow> (Some err, b)
         | (None, b, w) \<Rightarrow>
             let w = format w 0 None ''}'' ''}''
             in (None, b\<lparr>translatedDeclarations := translatedDeclarations b @ [w]\<rparr>))"

section \<open>Top-level declarations\<close>

definition handleProtoType :: "golib \<Rightarrow> builder \<Rightarrow> visitee \<Rightarrow> error option \<times> builder" where
  "handleProtoType L b typ =
     (case typ of
        VSyntax \<Rightarrow> (None, b)
      | VPackage p \<Rightarrow> (None, b\<lparr>pkg := Some p\<rparr>)
      | VImport i \<Rightarrow> (None, b\<lparr>imports' := imports' b @ [i]\<rparr>)
      | VMessage m \<Rightarrow> handleMessage L b m
      | VEnum e \<Rightarrow> handleEnum L b e
      | VService s \<Rightarrow> handleService L b s
      | VOption o' \<Rightarrow> (None, b\<lparr>pkgOpts := pkgOpts b @ [o']\<rparr>)
      | _ \<Rightarrow> (Some (Errorf (''unhandled proto type '' @ typeName typ)), b))"

section \<open>Package, file options and imports\<close>

definition genAnnotation :: "string \<Rightarrow> string \<Rightarrow> string" where
  "genAnnotation name v = name @ ''('' @ v @ '')''"

definition genAnnotationString :: "golib \<Rightarrow> string \<Rightarrow> string \<Rightarrow> string" where
  "genAnnotationString L name v = name @ ''('' @ Quote L v @ '')''"

text \<open>
  The switch of \<^verbatim>\<open>handlePackage\<close> on the option's name: \<open>GoPackage\<close> for the case that
  continues the loop, \<open>Annotated impt value\<close> for the cases that fall out of the switch
  with these two variables, \<open>Unhandled\<close> for the default.
\<close>

datatype file_option = GoPackage | Annotated string string | Unhandled

definition fileOption :: "golib \<Rightarrow> string \<Rightarrow> string \<Rightarrow> file_option" where
  "fileOption L n val =
     (if n = ''go_package'' then GoPackage
      else if n = ''deprecated'' then
        Annotated ''github.com/gunk/opt/file'' (genAnnotation ''Deprecated'' val)
      else if n = ''optimize_for'' then
        Annotated ''github.com/gunk/opt/file'' (genAnnotation ''OptimizeFor'' val)
      else if n = ''java_package'' then
        Annotated ''github.com/gunk/opt/file/java'' (genAnnotationString L ''Package'' val)
      else if n = ''java_outer_classname'' then
        Annotated ''github.com/gunk/opt/file/java''
          (genAnnotationString L ''OuterClassname'' val)
      else if n = ''java_multiple_files'' then
        Annotated ''github.com/gunk/opt/file/java'' (genAnnotation ''MultipleFiles'' val)
      else if n = ''java_string_check_utf8'' then
        Annotated ''github.com/gunk/opt/file/java'' (genAnnotation ''StringCheckUtf8'' val)
      else if n = ''java_generic_services'' then
        Annotated ''github.com/gunk/opt/file/java'' (genAnnotation ''GenericServices'' val)
      else if n = ''swift_prefix'' then
        Annotated ''github.com/gunk/opt/file/swift'' []
      else if n = ''csharp_namespace'' then
        Annotated ''github.com/gunk/opt/file/csharp'' (genAnnotationString L ''Namespace'' val)
      else if n = ''objc_class_prefix'' then
        Annotated ''github.com/gunk/opt/file/objc'' (genAnnotationString L ''ClassPrefix'' val)
      else if n = ''php_generic_services'' then
        Annotated ''github.com/gunk/opt/file/php'' (genAnnotation ''GenericServices'' val)
      else if n = ''cc_generic_services'' then
        Annotated ''github.com/gunk/opt/file/cc'' (genAnnotation ''GenericServices'' val)
      else if n = ''cc_enable_arenas'' then
        Annotated ''github.com/gunk/opt/file/cc'' (genAnnotation ''EnableArenas'' val)
      else Unhandled)"

text \<open>
  The loop of \<^verbatim>\<open>handlePackage\<close> over \<^verbatim>\<open>b.pkgOpts\<close>, on the variables \<open>opt\<close> (the last
  \<^verbatim>\<open>go_package\<close> option seen) and \<open>gunkAnnotations\<close>.
\<close>

fun packageOptions ::
  "golib \<Rightarrow> builder \<Rightarrow> proto_option option \<Rightarrow> string list \<Rightarrow> proto_option list
     \<Rightarrow> error option \<times> builder \<times> proto_option option \<times> string list" where
  "packageOptions L b opt gunkAnnotations [] = (None, b, opt, gunkAnnotations)"
| "packageOptions L b opt gunkAnnotations (o' # os) =
     (case fileOption L (option_Name o') (literal_Source (option_Constant o')) of
        GoPackage \<Rightarrow> packageOptions L b (Some o') gunkAnnotations os
      | Annotated impt v \<Rightarrow>
          packageOptions L (b\<lparr>importsUsed := Mapping.update impt True (importsUsed b)\<rparr>) opt
            (gunkAnnotations @ [Base impt @ ''.'' @ v]) os
      | Unhandled \<Rightarrow>
          (Some (formatError b (option_Position o')
                   (Quote L (option_Name o') @ '' is an unhandled proto file option'')),
           b, opt, gunkAnnotations))"

text \<open>
  \<^verbatim>\<open>handlePackage\<close> returns the package text or an error. Without a package
  declaration \<^verbatim>\<open>b.pkg\<close> is nil and reading its comment panics.
\<close>

definition handlePackage :: "golib \<Rightarrow> builder \<Rightarrow> (error + string) \<times> builder" where
  "handlePackage L b =
     (case packageOptions L b None [] (pkgOpts b) of
        (Some err, b, opt, gunkAnnotations) \<Rightarrow> (Inl err, b)
      | (None, b, opt, gunkAnnotations) \<Rightarrow>
          let s = (\<lambda>ga. ''// +gunk '' @ ga @ ''\<newline>'');
              w = fold (\<lambda>ga w. format w 0 None (s ga) (Sprintf0 L (s ga))) gunkAnnotations []
          in (case pkg b of
                None \<Rightarrow> (Inl NilPointer, b)
              | Some p \<Rightarrow>
                  let w = format w 0 (package_Comment p) [] [];
                      w = (case opt of None \<Rightarrow> w
                           | Some o' \<Rightarrow> format w 0 (option_Comment o') [] []);
                      w = format w 0 None ''package %s'' (''package '' @ package_Name p);
                      w = (case opt of
                             None \<Rightarrow> w
                           | Some o' \<Rightarrow>
                               if literal_Source (option_Constant o') \<noteq> [] then
                                 format w 0 None '' // proto %s''
                                   ('' // proto '' @ literal_Source (option_Constant o'))
                               else w)
                  in (Inr w, b)))"

text \<open>
  \<^verbatim>\<open>handleImports\<close> ranges over the map \<^verbatim>\<open>b.importsUsed\<close>. Go visits every key of a map
  once, in an order it does not specify: \<open>ks\<close> is the order of one run, and
  \<open>rangeOrder m ks\<close> says that \<open>ks\<close> is such an order for the map \<open>m\<close>.
\<close>

definition rangeOrder :: "(string, bool) mapping \<Rightarrow> string list \<Rightarrow> bool" where
  "rangeOrder m ks \<longleftrightarrow> distinct ks \<and> set ks = Mapping.keys m"

definition handleImports :: "golib \<Rightarrow> builder \<Rightarrow> string list \<Rightarrow> string" where
  \<open>handleImports L b ks =
     (if Mapping.is_empty (importsUsed b) \<and> imports' b = [] then []
      else
        let w = format [] 0 None ''import ('' ''import ('';
            w = fold (\<lambda>i w. let w = format w 0 None ''\<newline>'' ''\<newline>''
                             in format w 1 None (Quote L i) (Sprintf0 L (Quote L i))) ks w;
            w = fold (\<lambda>i w. let w = format w 0 None ''\<newline>'' ''\<newline>''
                             in format w 1 None ''// %q''
                                  (''// '' @ Quote L (import_Filename i))) (imports' b) w
        in format w 0 None ''\<newline>)'' ''\<newline>)'')\<close>

section \<open>Converting one document\<close>

text \<open>The builder \<^verbatim>\<open>convertFile\<close> starts from.\<close>

definition newBuilder :: "string \<Rightarrow> builder" where
  "newBuilder name =
     \<lparr>filename = name, translatedDeclarations = [], pkg = None, pkgOpts = [],
      imports' = [], importsUsed = Mapping.empty, stderr = []\<rparr>"

text \<open>The loop of \<^verbatim>\<open>convertFile\<close> over the elements of the document.\<close>

fun handleElements :: "golib \<Rightarrow> builder \<Rightarrow> visitee list \<Rightarrow> error option \<times> builder" where
  "handleElements L b [] = (None, b)"
| "handleElements L b (e # es) =
     (case handleProtoType L b e of
        (Some err, b) \<Rightarrow> (Some (Errorf (errorString err @ ''\<newline>'')), b)
      | (None, b) \<Rightarrow> handleElements L b es)"

text \<open>
  \<^verbatim>\<open>convertFile\<close> between the parser and the formatter: \<open>name\<close> is the base name of the
  proto file, \<open>elements\<close> the parsed document and \<open>order\<close> the order in which the
  range over \<^verbatim>\<open>importsUsed\<close> runs. The result is the error, or the text that is handed
  to \<^verbatim>\<open>format.Source\<close>; with it comes the final builder, which holds the diagnostics.
  Opening and parsing the file, the overwrite check, \<^verbatim>\<open>format.Source\<close> and writing the
  result are not modelled.
\<close>

definition convertFile ::
  "golib \<Rightarrow> string \<Rightarrow> visitee list \<Rightarrow> ((string, bool) mapping \<Rightarrow> string list)
     \<Rightarrow> (error + string) \<times> builder" where
  "convertFile L name elements order =
     (case handleElements L (newBuilder name) elements of
        (Some err, b) \<Rightarrow> (Inl err, b)
      | (None, b) \<Rightarrow>
          (case handlePackage L b of
             (Inl err, b) \<Rightarrow> (Inl err, b)
           | (Inr translatedPkg, b) \<Rightarrow>
               let translatedImports = handleImports L b (order (importsUsed b));
                   w = translatedPkg @ ''\<newline>\<newline>'';
                   w = (if translatedImports \<noteq> []
                        then w @ translatedImports @ ''\<newline>'' else w);
                   w = fold (\<lambda>l w. w @ ''\<newline>'' @ l @ ''\<newline>'')
                         (translatedDeclarations b) w
               in (Inr w, b)))"

section \<open>The text of a declaration\<close>

text \<open>
  The functions of this section say in closed form which text the handlers write when
  they succeed. They read the declaration only, never the builder; the handlers are
  proved to produce exactly this text.
\<close>

definition fieldText ::
  "golib \<Rightarrow> comment option \<Rightarrow> string \<Rightarrow> string \<Rightarrow> int \<Rightarrow> string" where
  \<open>fieldText L comment name typ sequence =
     commentLines 1 comment @ [tab] @ ForceCamelIdentifier L name @ '' '' @ typ
       @ '' `pb:"'' @ itoa sequence @ ''" json:"'' @ CamelToSnake L name @ ''"`\<newline>''\<close>

definition memberText :: "golib \<Rightarrow> visitee \<Rightarrow> string" where
  "memberText L e =
     (case e of
        VNormalField ft \<Rightarrow>
          fieldText L (nf_Comment ft) (nf_Name ft)
            (if nf_Repeated ft then ''[]'' @ goType (nf_Type ft) else goType (nf_Type ft))
            (nf_Sequence ft)
      | VMapField ft \<Rightarrow>
          fieldText L (mf_Comment ft) (mf_Name ft)
            (''map['' @ goType (mf_KeyType ft) @ '']'' @ goType (mf_Type ft)) (mf_Sequence ft)
      | VComment c \<Rightarrow> commentLines 1 (Some c)
      | _ \<Rightarrow> [])"

definition messageBlock :: "golib \<Rightarrow> proto_message \<Rightarrow> string" where
  "messageBlock L m =
     commentLines 0 (message_Comment m) @ ''type '' @ message_Name m @ '' struct {\<newline>''
       @ concat (map (memberText L) (message_Elements m)) @ ''}''"

text \<open>An enum translates without error when it holds enum fields and options only.\<close>

definition enumValid :: "visitee list \<Rightarrow> bool" where
  "enumValid cs =
     list_all (\<lambda>c. case c of VEnumField _ \<Rightarrow> True | VOption _ \<Rightarrow> True | _ \<Rightarrow> False) cs"

text \<open>
  \<open>iotaPositions i cs\<close>: every enum field of \<open>cs\<close> has as its integer its index in the
  element list, the first element of \<open>cs\<close> having index \<open>i\<close>.
\<close>

fun iotaPositions :: "nat \<Rightarrow> visitee list \<Rightarrow> bool" where
  "iotaPositions i [] = True"
| "iotaPositions i (c # cs) =
     ((case c of VEnumField ef \<Rightarrow> ef_Integer ef = int i | _ \<Rightarrow> True)
      \<and> iotaPositions (Suc i) cs)"

definition valueLine :: "proto_enum \<Rightarrow> bool \<Rightarrow> nat \<Rightarrow> enum_field \<Rightarrow> string" where
  "valueLine e outputIota i ef =
     commentLines 1 (ef_Comment ef) @ [tab]
       @ (if \<not> outputIota then
            ef_Name ef @ '' '' @ enum_Name e @ '' = '' @ itoa (ef_Integer ef) @ ''\<newline>''
          else if i = 0 then ef_Name ef @ '' '' @ enum_Name e @ '' = iota\<newline>''
          else ef_Name ef @ ''\<newline>'')"

fun enumLines :: "proto_enum \<Rightarrow> bool \<Rightarrow> nat \<Rightarrow> visitee list \<Rightarrow> string" where
  "enumLines e outputIota i [] = []"
| "enumLines e outputIota i (c # cs) =
     (case c of VEnumField ef \<Rightarrow> valueLine e outputIota i ef | _ \<Rightarrow> [])
       @ enumLines e outputIota (Suc i) cs"

definition enumBlock :: "proto_enum \<Rightarrow> string" where
  "enumBlock e =
     commentLines 0 (enum_Comment e) @ ''type '' @ enum_Name e @ '' int\<newline>''
       @ ''\<newline>const (\<newline>''
       @ enumLines e (iotaPositions 0 (enum_Elements e)) 0 (enum_Elements e) @ '')''"

text \<open>
  The enums nested in a message, each as a declaration of its own, in the order of the
  elements of the message.
\<close>

definition hoistedEnums :: "visitee list \<Rightarrow> string list" where
  "hoistedEnums es =
     concat (map (\<lambda>e. case e of VEnum en \<Rightarrow> [enumBlock en] | _ \<Rightarrow> []) es)"

text \<open>The variables \<open>method\<close>, \<open>url\<close> and \<open>body\<close> after the loop over string literals.\<close>

fun orderedMapVars ::
  "string \<times> string \<times> string \<Rightarrow> named_literal list \<Rightarrow> string \<times> string \<times> string" where
  "orderedMapVars (method, url, body) [] = (method, url, body)"
| "orderedMapVars (method, url, body) (l # ls) =
     (if named_Name l = ''body''
      then orderedMapVars (method, url, literal_Source (named_Literal l)) ls
      else orderedMapVars (named_Name l, literal_Source (named_Literal l), body) ls)"

text \<open>
  \<open>routed opt\<close>: the option is a routing annotation for which the converter writes an
  \<^verbatim>\<open>http.Match\<close> block.
\<close>

definition routed :: "proto_option \<Rightarrow> bool" where
  "routed opt \<longleftrightarrow>
     option_Name opt = ''(google.api.http)''
     \<and> (case orderedMapVars ([], [], []) (literal_OrderedMap (option_Constant opt)) of
          (method, url, body) \<Rightarrow> method \<noteq> [] \<and> url \<noteq> [])"

definition matchText :: "golib \<Rightarrow> proto_option \<Rightarrow> string" where
  "matchText L opt =
     (case orderedMapVars ([], [], []) (literal_OrderedMap (option_Constant opt)) of
        (method, url, body) \<Rightarrow> httpMatch L [] method url body)"

fun rpcOptionsText :: "golib \<Rightarrow> comment option \<Rightarrow> visitee list \<Rightarrow> string \<times> comment option" where
  "rpcOptionsText L comment [] = ([], comment)"
| "rpcOptionsText L comment (x # xs) =
     (case x of
        VOption opt \<Rightarrow>
          if routed opt then
            (case rpcOptionsText L None xs of
               (t, c) \<Rightarrow>
                 ((if comment \<noteq> None then commentLines 1 comment @ [tab] @ ''//\<newline>''
                   else []) @ matchText L opt @ t, c))
          else rpcOptionsText L comment xs
      | _ \<Rightarrow> rpcOptionsText L comment xs)"

definition rpcText :: "golib \<Rightarrow> nat \<Rightarrow> proto_rpc \<Rightarrow> string" where
  "rpcText L i r =
     (if i > 0 \<and> (rpc_Comment r \<noteq> None \<or> rpc_Elements r \<noteq> []) then ''\<newline>'' else [])
       @ fst (rpcOptionsText L (rpc_Comment r) (rpc_Elements r))
       @ commentLines 1 (snd (rpcOptionsText L (rpc_Comment r) (rpc_Elements r)))
       @ [tab] @ rpc_Name r
       @ ''('' @ (if rpc_RequestType r = ''google.protobuf.Empty'' then [] else rpc_RequestType r)
       @ '') '' @ (if rpc_ReturnsType r = ''google.protobuf.Empty'' then [] else rpc_ReturnsType r)
       @ ''\<newline>''"

fun serviceLines :: "golib \<Rightarrow> nat \<Rightarrow> visitee list \<Rightarrow> string" where
  "serviceLines L i [] = []"
| "serviceLines L i (e # es) =
     (case e of VRPC r \<Rightarrow> rpcText L i r | _ \<Rightarrow> []) @ serviceLines L (Suc i) es"

definition serviceBlock :: "golib \<Rightarrow> proto_service \<Rightarrow> string" where
  "serviceBlock L s =
     commentLines 0 (service_Comment s) @ ''type '' @ service_Name s @ '' interface {\<newline>''
       @ serviceLines L 0 (service_Elements s) @ ''}''"

text \<open>The blocks one top-level declaration adds to \<^verbatim>\<open>translatedDeclarations\<close>.\<close>

definition declarationBlocks :: "golib \<Rightarrow> visitee \<Rightarrow> string list" where
  "declarationBlocks L d =
     (case d of
        VMessage m \<Rightarrow> hoistedEnums (message_Elements m) @ [messageBlock L m]
      | VEnum e \<Rightarrow> [enumBlock e]
      | VService s \<Rightarrow> [serviceBlock L s]
      | _ \<Rightarrow> [])"

section \<open>Documents that translate without error\<close>

text \<open>
  These predicates name the inputs on which the loops run to their end: the handlers
  are proved to return no error exactly on them.
\<close>

definition messageValid :: "visitee list \<Rightarrow> bool" where
  "messageValid es =
     list_all (\<lambda>e. case e of
                     VNormalField _ \<Rightarrow> True | VEnum _ \<Rightarrow> True | VComment _ \<Rightarrow> True
                   | VMapField _ \<Rightarrow> True | VOption _ \<Rightarrow> True | _ \<Rightarrow> False) es"

definition routingValid :: "proto_option \<Rightarrow> bool" where
  "routingValid opt \<longleftrightarrow>
     (option_Name opt = ''(google.api.http)'' \<longrightarrow>
        literal_OrderedMap (option_Constant opt) \<noteq> []
        \<and> list_all (\<lambda>l. literal_IsString (named_Literal l))
             (literal_OrderedMap (option_Constant opt)))"

definition rpcValid :: "visitee list \<Rightarrow> bool" where
  "rpcValid xs = list_all (\<lambda>x. case x of VOption opt \<Rightarrow> routingValid opt | _ \<Rightarrow> False) xs"

definition serviceValid :: "visitee list \<Rightarrow> bool" where
  "serviceValid es =
     list_all (\<lambda>e. case e of
                     VRPC r \<Rightarrow> rpcValid (rpc_Elements r) | VOption _ \<Rightarrow> True | _ \<Rightarrow> False) es"

text \<open>
  Every enum nested in the message, or in the declaration if it is a message, holds enum
  fields and options only.
\<close>

definition nestedEnumsValid :: "visitee list \<Rightarrow> bool" where
  "nestedEnumsValid es =
     list_all (\<lambda>e. case e of VEnum en \<Rightarrow> enumValid (enum_Elements en) | _ \<Rightarrow> True) es"

definition hoistingValid :: "visitee \<Rightarrow> bool" where
  "hoistingValid d =
     (case d of VMessage m \<Rightarrow> nestedEnumsValid (message_Elements m) | _ \<Rightarrow> True)"

definition declarationValid :: "visitee \<Rightarrow> bool" where
  "declarationValid d =
     (case d of
        VSyntax \<Rightarrow> True | VPackage _ \<Rightarrow> True | VImport _ \<Rightarrow> True | VOption _ \<Rightarrow> True
      | VMessage m \<Rightarrow> messageValid (message_Elements m)
      | VEnum e \<Rightarrow> enumValid (enum_Elements e)
      | VService s \<Rightarrow> serviceValid (service_Elements s)
      | _ \<Rightarrow> False)"

text \<open>The rpc, or the service, holds a routing annotation that is written out.\<close>

definition rpcRouted :: "visitee list \<Rightarrow> bool" where
  "rpcRouted xs = list_ex (\<lambda>x. case x of VOption opt \<Rightarrow> routed opt | _ \<Rightarrow> False) xs"

definition serviceRouted :: "visitee list \<Rightarrow> bool" where
  "serviceRouted es =
     list_ex (\<lambda>e. case e of VRPC r \<Rightarrow> rpcRouted (rpc_Elements r) | _ \<Rightarrow> False) es"

text \<open>The options attached to a message field.\<close>

definition fieldOptions :: "visitee \<Rightarrow> proto_option list" where
  "fieldOptions fld =
     (case fld of
        VNormalField ft \<Rightarrow> nf_Options ft | VMapField mf \<Rightarrow> mf_Options mf | _ \<Rightarrow> [])"

text \<open>The file option names the converter has a case for.\<close>

definition vocabulary :: "string list" where
  "vocabulary =
     [''go_package'', ''deprecated'', ''optimize_for'', ''java_package'',
      ''java_outer_classname'', ''java_multiple_files'', ''java_string_check_utf8'',
      ''java_generic_services'', ''swift_prefix'', ''csharp_namespace'',
      ''objc_class_prefix'', ''php_generic_services'', ''cc_generic_services'',
      ''cc_enable_arenas'']"

text \<open>The file-level options of a document, in its order.\<close>

definition fileOptions :: "visitee list \<Rightarrow> proto_option list" where
  "fileOptions ds = concat (map (\<lambda>d. case d of VOption o' \<Rightarrow> [o'] | _ \<Rightarrow> []) ds)"

text \<open>
  The imports a document requires: the routing import when a service writes out a
  routing annotation, and the import of every file option that is turned into an
  annotation.
\<close>

definition requiredImports :: "golib \<Rightarrow> visitee list \<Rightarrow> string set" where
  "requiredImports L ds =
     (if list_ex (\<lambda>d. case d of VService s \<Rightarrow> serviceRouted (service_Elements s) | _ \<Rightarrow> False) ds
      then {''github.com/gunk/opt/http''} else {})
     \<union> set (concat (map (\<lambda>o'. case fileOption L (option_Name o')
                                      (literal_Source (option_Constant o')) of
                                 Annotated impt v \<Rightarrow> [impt] | _ \<Rightarrow> [])
                      (fileOptions ds)))"

section \<open>A library instance for running the converter\<close>

text \<open>
  To run the definitions on a document the library functions need values. These agree
  with Go on the inputs used below: \<open>asciiUpper\<close> with \<^verbatim>\<open>strings.ToUpper\<close> on ASCII
  strings, \<open>asciiQuote\<close> with \<^verbatim>\<open>%q\<close> on printable ASCII strings, the identity with
  \<^verbatim>\<open>Fprintf\<close> on formats without a percent sign, \<open>capitalize\<close> and the identity with
  the two \<^verbatim>\<open>snaker\<close> functions on a single lower-case word that is no initialism.
\<close>

definition asciiUpper :: "string \<Rightarrow> string" where
  "asciiUpper s =
     map (\<lambda>c. case map_of (zip ''abcdefghijklmnopqrstuvwxyz'' ''ABCDEFGHIJKLMNOPQRSTUVWXYZ'') c of
                 None \<Rightarrow> c | Some u \<Rightarrow> u) s"

definition asciiQuote :: "string \<Rightarrow> string" where
  "asciiQuote s =
     [dquote]
       @ concat (map (\<lambda>c. if c = dquote \<or> c = backslash then [backslash, c] else [c]) s)
       @ [dquote]"

definition capitalize :: "string \<Rightarrow> string" where
  "capitalize s = (case s of [] \<Rightarrow> [] | c # cs \<Rightarrow> asciiUpper [c] @ cs)"

definition asciiLib :: golib where
  "asciiLib =
     \<lparr>ToUpper = asciiUpper, Quote = asciiQuote, Sprintf0 = (\<lambda>s. s),
      ForceCamelIdentifier = capitalize, CamelToSnake = (\<lambda>s. s)\<rparr>"

definition at :: "int \<Rightarrow> int \<Rightarrow> position" where
  "at l c = \<lparr>Line = l, Column = c\<rparr>"

definition str :: "string \<Rightarrow> literal" where
  "str s = Literal s True []"

section \<open>Sample documents\<close>

text \<open>A field \<^verbatim>\<open>string msg = 1 [custom = "x"];\<close> and a message that holds it.\<close>

definition msgField :: normal_field where
  "msgField =
     NormalField (at 4 3) None ''msg'' ''string'' 1 False
       [Option (at 4 19) None ''custom'' (str ''x'')]"

definition msgMessage :: proto_message where
  "msgMessage = Message (at 3 1) None ''Message'' [VNormalField msgField]"

text \<open>A document with the file option \<^verbatim>\<open>option totally_custom_option = "x";\<close>.\<close>

definition customOption :: proto_option where
  "customOption = Option (at 2 1) None ''totally_custom_option'' (str ''x'')"

definition customDocument :: "visitee list" where
  "customDocument =
     [VSyntax, VPackage (Package None ''util''), VOption customOption, VMessage msgMessage]"

text \<open>The fields \<^verbatim>\<open>repeated sint32 tags = 3;\<close> and \<^verbatim>\<open>map<string, sfixed64> attrs = 4;\<close>.\<close>

definition tagsField :: normal_field where
  "tagsField = NormalField (at 5 3) None ''tags'' ''sint32'' 3 True []"

definition attrsField :: map_field where
  "attrsField = MapField (at 6 3) None ''attrs'' ''sfixed64'' 4 ''string'' []"

text \<open>
  A document whose message holds the map field
  \<^verbatim>\<open>map<string, string> labels = 1 [custom = "y"];\<close>.
\<close>

definition labelsField :: map_field where
  "labelsField =
     MapField (at 3 3) None ''labels'' ''string'' 1 ''string''
       [Option (at 3 38) None ''custom'' (str ''y'')]"

definition labelsMessage :: proto_message where
  "labelsMessage = Message (at 2 1) None ''Labels'' [VMapField labelsField]"

definition labelsDocument :: "visitee list" where
  "labelsDocument = [VPackage (Package None ''util''), VMessage labelsMessage]"

text \<open>
  A document with a message that holds a nested enum, and a service with two routed
  methods: \<^verbatim>\<open>post: "/v1/echo" body: "*"\<close> and \<^verbatim>\<open>get: "/v1/echo"\<close>.
\<close>

definition statusEnum :: proto_enum where
  "statusEnum =
     Enum (at 6 3) None ''Status''
       [VEnumField (EnumField None ''Unknown'' 0 []),
        VEnumField (EnumField None ''Error'' 1 []),
        VEnumField (EnumField None ''OK'' 2 [])]"

definition statusMessage :: proto_message where
  "statusMessage =
     Message (at 5 1) None ''CheckStatusResponse''
       [VNormalField (NormalField (at 5 3) None ''code'' ''int32'' 2 False []),
        VEnum statusEnum,
        VNormalField (NormalField (at 11 3) None ''status'' ''Status'' 1 False [])]"

definition echoRoute :: proto_option where
  "echoRoute =
     Option (at 15 5) None ''(google.api.http)''
       (Literal [] False [NamedLiteral ''post'' (str ''/v1/echo''), NamedLiteral ''body'' (str ''*'')])"

definition statusRoute :: proto_option where
  "statusRoute =
     Option (at 20 5) None ''(google.api.http)''
       (Literal [] False [NamedLiteral ''get'' (str ''/v1/echo'')])"

definition echoRPC :: proto_rpc where
  "echoRPC = RPC (at 14 3) None ''Echo'' ''Message'' ''Message'' [VOption echoRoute]"

definition statusRPC :: proto_rpc where
  "statusRPC =
     RPC (at 19 3) None ''CheckStatus'' ''google.protobuf.Empty'' ''CheckStatusResponse''
       [VOption statusRoute]"

definition utilService :: proto_service where
  "utilService = Service (at 13 1) None ''Util'' [VRPC echoRPC, VRPC statusRPC]"

definition utilDocument :: "visitee list" where
  "utilDocument =
     [VSyntax, VPackage (Package None ''util''), VMessage msgMessage, VMessage statusMessage,
      VService utilService]"

text \<open>A routing annotation with two verb keys, \<^verbatim>\<open>get: "/v1/a" post: "/v1/b"\<close>.\<close>

definition twoVerbs :: "named_literal list" where
  "twoVerbs = [NamedLiteral ''get'' (str ''/v1/a''), NamedLiteral ''post'' (str ''/v1/b'')]"

definition twoVerbsRoute :: proto_option where
  "twoVerbsRoute = Option (at 15 5) None ''(google.api.http)'' (Literal [] False twoVerbs)"

text \<open>
  The document above with two file options of the Java family in front, and an order in
  which the two required imports are visited.
\<close>

definition javaDocument :: "visitee list" where
  "javaDocument =
     VOption (Option (at 2 1) None ''java_package'' (str ''com.example.util''))
     # VOption (Option (at 3 1) None ''java_multiple_files'' (Literal ''true'' False []))
     # utilDocument"

definition javaOrder :: "(string, bool) mapping \<Rightarrow> string list" where
  "javaOrder m = [''github.com/gunk/opt/file/java'', ''github.com/gunk/opt/http'']"

text \<open>
  An enum with an option in front of its values,
  \<^verbatim>\<open>enum Level { option deprecated = true; Low = 1; Mid = 2; High = 3; }\<close>.
\<close>

definition levelEnum :: proto_enum where
  "levelEnum =
     Enum (at 1 1) None ''Level''
       [VOption (Option (at 2 3) None ''deprecated'' (Literal ''true'' False [])),
        VEnumField (EnumField None ''Low'' 1 []),
        VEnumField (EnumField None ''Mid'' 2 []),
        VEnumField (EnumField None ''High'' 3 [])]"

text \<open>A document with the file option \<^verbatim>\<open>option swift_prefix = "UT";\<close>.\<close>

definition swiftDocument :: "visitee list" where
  "swiftDocument =
     [VPackage (Package None ''util''),
      VOption (Option (at 2 1) None ''swift_prefix'' (str ''UT''))]"

text \<open>
  An enum that ends with a comment of its own, which the parser keeps as an element, and
  a document where this enum is nested in a message.
\<close>

definition kindEnum :: proto_enum where
  "kindEnum =
     Enum (at 3 3) None ''Kind''
       [VEnumField (EnumField None ''A'' 0 []), VComment (Comment ['' more to come''])]"

definition holderDocument :: "visitee list" where
  "holderDocument =
     [VPackage (Package None ''util''),
      VMessage (Message (at 2 1) None ''Holder'' [VEnum kindEnum])]"

section \<open>What the handlers write\<close>

lemma format_text:
  "format w indent comments s out =
     w @ commentLines indent comments @ (if s = [] then [] else tabs indent @ out)"
  by (simp add: format_def)

lemma commentLines_None [simp]: "commentLines indent None = []"
  by (simp add: commentLines_def)

lemma unhandled_frame [simp]:
  "translatedDeclarations (unhandled L b kind o') = translatedDeclarations b"
  "importsUsed (unhandled L b kind o') = importsUsed b"
  "filename (unhandled L b kind o') = filename b"
  "pkg (unhandled L b kind o') = pkg b"
  "pkgOpts (unhandled L b kind o') = pkgOpts b"
  "imports' (unhandled L b kind o') = imports' b"
  by (simp_all add: unhandled_def warn_def)

lemma unhandled_stderr:
  "stderr (unhandled L b kind o') =
     stderr b @ [errorString (formatError b (option_Position o')
       (''unhandled '' @ kind @ '' option '' @ Quote L (option_Name o')))]"
  by (simp add: unhandled_def warn_def)

lemma formatError_cong: "filename b = filename b' \<Longrightarrow> formatError b pos msg = formatError b' pos msg"
  by (simp add: formatError_def)

lemma fold_unhandled_frame [simp]:
  "translatedDeclarations (fold (\<lambda>o' b. unhandled L b kind o') os b) = translatedDeclarations b"
  "importsUsed (fold (\<lambda>o' b. unhandled L b kind o') os b) = importsUsed b"
  "filename (fold (\<lambda>o' b. unhandled L b kind o') os b) = filename b"
  "pkg (fold (\<lambda>o' b. unhandled L b kind o') os b) = pkg b"
  "pkgOpts (fold (\<lambda>o' b. unhandled L b kind o') os b) = pkgOpts b"
  "imports' (fold (\<lambda>o' b. unhandled L b kind o') os b) = imports' b"
  by (induction os arbitrary: b; simp)+

lemma fold_unhandled_stderr:
  "stderr (fold (\<lambda>o' b. unhandled L b kind o') os b) =
     stderr b @ map (\<lambda>o'. errorString (formatError b (option_Position o')
       (''unhandled '' @ kind @ '' option '' @ Quote L (option_Name o')))) os"
proof (induction os arbitrary: b)
  case Nil
  show ?case by simp
next
  case (Cons a os)
  have "formatError (unhandled L b kind a) = formatError b"
    by (intro ext) (simp add: formatError_def)
  then show ?case by (simp add: Cons.IH unhandled_stderr)
qed

lemma handleMessageField_normal:
  "handleMessageField L b w (VNormalField ft) =
     (None, fold (\<lambda>o' b. unhandled L b ''field'' o') (nf_Options ft) b,
      w @ memberText L (VNormalField ft))"
  by (simp add: handleMessageField_def memberText_def fieldText_def format_text tabs_def)

lemma handleMessageField_map:
  "handleMessageField L b w (VMapField ft) =
     (None, fold (\<lambda>o' b. unhandled L b ''field'' o') (mf_Options ft) b,
      w @ memberText L (VMapField ft))"
  by (simp add: handleMessageField_def memberText_def fieldText_def format_text tabs_def)

lemma enumValueOptions_frame [simp]:
  "translatedDeclarations (enumValueOptions L b xs) = translatedDeclarations b"
  "importsUsed (enumValueOptions L b xs) = importsUsed b"
  "filename (enumValueOptions L b xs) = filename b"
  "pkg (enumValueOptions L b xs) = pkg b"
  "pkgOpts (enumValueOptions L b xs) = pkgOpts b"
  "imports' (enumValueOptions L b xs) = imports' b"
  unfolding enumValueOptions_def
  by (induction xs arbitrary: b; simp split: visitee.splits)+

lemma enumCheck_frame [simp]:
  "translatedDeclarations (fst (snd (enumCheck L b e i oi cs))) = translatedDeclarations b"
  "importsUsed (fst (snd (enumCheck L b e i oi cs))) = importsUsed b"
  "filename (fst (snd (enumCheck L b e i oi cs))) = filename b"
  "pkg (fst (snd (enumCheck L b e i oi cs))) = pkg b"
  "pkgOpts (fst (snd (enumCheck L b e i oi cs))) = pkgOpts b"
  "imports' (fst (snd (enumCheck L b e i oi cs))) = imports' b"
  by (induction cs arbitrary: b i oi; simp split: visitee.splits)+

lemma enumCheck_None:
  "(fst (enumCheck L b e i oi cs) = None) = enumValid cs"
  by (induction cs arbitrary: b i oi) (simp_all add: enumValid_def split: visitee.splits)

lemma enumCheck_iota:
  "enumValid cs \<Longrightarrow> snd (snd (enumCheck L b e i oi cs)) = (oi \<and> iotaPositions i cs)"
  by (induction cs arbitrary: b i oi) (auto simp: enumValid_def split: visitee.splits)

lemma enumOutput_frame [simp]:
  "translatedDeclarations (fst (enumOutput L b w e oi i cs)) = translatedDeclarations b"
  "importsUsed (fst (enumOutput L b w e oi i cs)) = importsUsed b"
  "filename (fst (enumOutput L b w e oi i cs)) = filename b"
  "pkg (fst (enumOutput L b w e oi i cs)) = pkg b"
  "pkgOpts (fst (enumOutput L b w e oi i cs)) = pkgOpts b"
  "imports' (fst (enumOutput L b w e oi i cs)) = imports' b"
  by (induction cs arbitrary: b w i; simp add: Let_def split: visitee.splits)+

lemma enumOutput_text:
  "snd (enumOutput L b w e oi i cs) = w @ enumLines e oi i cs"
  by (induction cs arbitrary: b w i)
     (simp_all add: Let_def valueLine_def format_text tabs_def split: visitee.splits)

lemma handleEnum_blocks:
  "translatedDeclarations (snd (handleEnum L b e)) =
     translatedDeclarations b @ (if enumValid (enum_Elements e) then [enumBlock e] else [])"
proof (cases "enumValid (enum_Elements e)")
  case True
  then have "fst (enumCheck L b e 0 True (enum_Elements e)) = None"
    by (simp add: enumCheck_None)
  with True show ?thesis
    by (simp add: handleEnum_def Let_def case_prod_unfold enumOutput_text enumCheck_iota
          enumBlock_def format_text tabs_def)
next
  case False
  then have "fst (enumCheck L b e 0 True (enum_Elements e)) \<noteq> None"
    by (simp add: enumCheck_None)
  with False show ?thesis
    by (auto simp: handleEnum_def Let_def case_prod_unfold)
qed

lemma handleEnum_None: "(fst (handleEnum L b e) = None) = enumValid (enum_Elements e)"
  using enumCheck_None [of L b e 0 True "enum_Elements e"]
  by (auto simp: handleEnum_def Let_def case_prod_unfold split: option.splits)

lemma handleEnum_frame [simp]:
  "importsUsed (snd (handleEnum L b e)) = importsUsed b"
  "filename (snd (handleEnum L b e)) = filename b"
  "pkg (snd (handleEnum L b e)) = pkg b"
  "pkgOpts (snd (handleEnum L b e)) = pkgOpts b"
  "imports' (snd (handleEnum L b e)) = imports' b"
  by (simp_all add: handleEnum_def Let_def case_prod_unfold split: option.splits)

lemma messageElements_frame [simp]:
  "importsUsed (fst (snd (messageElements L b w m es))) = importsUsed b"
  "filename (fst (snd (messageElements L b w m es))) = filename b"
  "pkg (fst (snd (messageElements L b w m es))) = pkg b"
  "pkgOpts (fst (snd (messageElements L b w m es))) = pkgOpts b"
  "imports' (fst (snd (messageElements L b w m es))) = imports' b"
  by (induction es arbitrary: b w;
      simp add: handleMessageField_normal handleMessageField_map split: visitee.splits)+

lemma messageElements_None:
  "(fst (messageElements L b w m es) = None) = messageValid es"
  by (induction es arbitrary: b w)
     (simp_all add: messageValid_def handleMessageField_normal handleMessageField_map
        split: visitee.splits)

lemma messageElements_text:
  "messageValid es \<Longrightarrow>
     snd (snd (messageElements L b w m es)) = w @ concat (map (memberText L) es)"
  by (induction es arbitrary: b w)
     (auto simp: messageValid_def handleMessageField_normal handleMessageField_map
        memberText_def format_text split: visitee.splits)

lemma messageElements_blocks:
  "messageValid es \<Longrightarrow>
     translatedDeclarations (fst (snd (messageElements L b w m es))) =
       translatedDeclarations b
       @ concat (map (\<lambda>e. case e of
                             VEnum en \<Rightarrow>
                               if enumValid (enum_Elements en) then [enumBlock en] else []
                           | _ \<Rightarrow> []) es)"
  by (induction es arbitrary: b w)
     (auto simp: messageValid_def handleMessageField_normal handleMessageField_map
        handleEnum_blocks split: visitee.splits)

lemma handleMessage_None:
  "(fst (handleMessage L b m) = None) = messageValid (message_Elements m)"
  using messageElements_None [of L b _ m "message_Elements m"]
  by (auto simp: handleMessage_def Let_def case_prod_unfold split: option.splits)

lemma handleMessage_blocks:
  "messageValid (message_Elements m) \<Longrightarrow>
     translatedDeclarations (snd (handleMessage L b m)) =
       translatedDeclarations b
       @ concat (map (\<lambda>e. case e of
                             VEnum en \<Rightarrow>
                               if enumValid (enum_Elements en) then [enumBlock en] else []
                           | _ \<Rightarrow> []) (message_Elements m))
       @ [messageBlock L m]"
  using messageElements_None [of L b _ m "message_Elements m"]
  by (simp add: handleMessage_def Let_def case_prod_unfold messageElements_text
        messageElements_blocks messageBlock_def format_text tabs_def)

lemma hoistedEnums_valid:
  "nestedEnumsValid es \<Longrightarrow>
     concat (map (\<lambda>e. case e of
                         VEnum en \<Rightarrow> if enumValid (enum_Elements en) then [enumBlock en] else []
                       | _ \<Rightarrow> []) es) = hoistedEnums es"
  by (induction es) (auto simp: nestedEnumsValid_def hoistedEnums_def split: visitee.splits)

lemma handleMessage_hoisted:
  "messageValid (message_Elements m) \<Longrightarrow> nestedEnumsValid (message_Elements m) \<Longrightarrow>
     translatedDeclarations (snd (handleMessage L b m)) =
       translatedDeclarations b @ hoistedEnums (message_Elements m) @ [messageBlock L m]"
  by (simp add: handleMessage_blocks hoistedEnums_valid)

lemma handleMessage_frame [simp]:
  "importsUsed (snd (handleMessage L b m)) = importsUsed b"
  "filename (snd (handleMessage L b m)) = filename b"
  "pkg (snd (handleMessage L b m)) = pkg b"
  "pkgOpts (snd (handleMessage L b m)) = pkgOpts b"
  "imports' (snd (handleMessage L b m)) = imports' b"
  by (simp_all add: handleMessage_def Let_def case_prod_unfold split: option.splits)

lemma orderedMap_ok:
  "list_all (\<lambda>l. literal_IsString (named_Literal l)) ls \<Longrightarrow>
     orderedMap L b opt (method, url, body) ls = Inr (orderedMapVars (method, url, body) ls)"
  by (induction ls arbitrary: "method" "url" "body") (simp_all add: handleLiteralString_def)

lemma orderedMap_error:
  "\<not> list_all (\<lambda>l. literal_IsString (named_Literal l)) ls \<Longrightarrow>
     isl (orderedMap L b opt (method, url, body) ls)"
  by (induction ls arbitrary: "method" "url" "body") (auto simp: handleLiteralString_def)

lemma httpMatch_text:
  "httpMatch L w method url body =
     w @ [tab] @ ''// +gunk http.Match{\<newline>''
       @ [tab] @ ''//     Method: '' @ Quote L (ToUpper L method) @ '',\<newline>''
       @ [tab] @ ''//     Path: '' @ Quote L url @ '',\<newline>''
       @ (if body \<noteq> [] then [tab] @ ''//     Body: '' @ Quote L body @ '',\<newline>'' else [])
       @ [tab] @ ''// }\<newline>''"
  by (simp add: httpMatch_def format_text Let_def tabs_def)

lemma rpcElements_frame [simp]:
  "translatedDeclarations (fst (snd (rpcElements L b w r c xs))) = translatedDeclarations b"
  "filename (fst (snd (rpcElements L b w r c xs))) = filename b"
  "pkg (fst (snd (rpcElements L b w r c xs))) = pkg b"
  "pkgOpts (fst (snd (rpcElements L b w r c xs))) = pkgOpts b"
  "imports' (fst (snd (rpcElements L b w r c xs))) = imports' b"
  by (induction xs arbitrary: b w c;
      simp add: Let_def split: visitee.splits sum.splits prod.splits)+

lemma rpcElements_None:
  "(fst (rpcElements L b w r c xs) = None) = rpcValid xs"
proof (induction xs arbitrary: b w c)
  case Nil
  show ?case by (simp add: rpcValid_def)
next
  case (Cons x xs)
  show ?case
  proof (cases x)
    case (VOption opt)
    show ?thesis
    proof (cases "option_Name opt = ''(google.api.http)''")
      case False
      with VOption Cons show ?thesis by (simp add: rpcValid_def routingValid_def)
    next
      case http: True
      show ?thesis
      proof (cases "routingValid opt")
        case True
        with http have ne: "literal_OrderedMap (option_Constant opt) \<noteq> []"
          and strs: "list_all (\<lambda>l. literal_IsString (named_Literal l))
             (literal_OrderedMap (option_Constant opt))"
          by (simp_all add: routingValid_def)
        show ?thesis using VOption http True ne Cons
          by (simp add: orderedMap_ok [OF strs] Let_def rpcValid_def split: prod.splits)
      next
        case False
        show ?thesis
        proof (cases "literal_OrderedMap (option_Constant opt) = []")
          case True
          with VOption http False show ?thesis by (simp add: rpcValid_def)
        next
          case ne: False
          with http False have "\<not> list_all (\<lambda>l. literal_IsString (named_Literal l))
             (literal_OrderedMap (option_Constant opt))"
            by (simp add: routingValid_def)
          from orderedMap_error [OF this, of L b opt "[]" "[]" "[]"]
          obtain err where "orderedMap L b opt ([], [], [])
              (literal_OrderedMap (option_Constant opt)) = Inl err"
            by (cases "orderedMap L b opt ([], [], [])
              (literal_OrderedMap (option_Constant opt))") auto
          with VOption http False ne show ?thesis by (simp add: rpcValid_def)
        qed
      qed
    qed
  qed (simp_all add: rpcValid_def)
qed

lemma rpcElements_text:
  "rpcValid xs \<Longrightarrow>
     fst (snd (snd (rpcElements L b w r c xs))) = w @ fst (rpcOptionsText L c xs)
     \<and> snd (snd (snd (rpcElements L b w r c xs))) = snd (rpcOptionsText L c xs)
     \<and> importsUsed (fst (snd (rpcElements L b w r c xs))) =
         (if rpcRouted xs then Mapping.update ''github.com/gunk/opt/http'' True (importsUsed b)
          else importsUsed b)"
proof (induction xs arbitrary: b w c)
  case Nil
  show ?case by (simp add: rpcRouted_def)
next
  case (Cons x xs)
  from Cons.prems obtain opt where x: "x = VOption opt" and rv: "routingValid opt"
    and rest: "rpcValid xs"
    by (cases x) (simp_all add: rpcValid_def)
  note IH = Cons.IH [OF rest]
  show ?case
  proof (cases "option_Name opt = ''(google.api.http)''")
    case False
    then show ?thesis using x IH by (simp add: rpcRouted_def routed_def)
  next
    case http: True
    with rv have ne: "literal_OrderedMap (option_Constant opt) \<noteq> []"
      and strs: "list_all (\<lambda>l. literal_IsString (named_Literal l))
         (literal_OrderedMap (option_Constant opt))"
      by (simp_all add: routingValid_def)
    obtain "method" "url" "body" where v: "orderedMapVars ([], [], [])
        (literal_OrderedMap (option_Constant opt)) = (method, url, body)"
      by (cases "orderedMapVars ([], [], []) (literal_OrderedMap (option_Constant opt))")
    show ?thesis
    proof (cases "method \<noteq> [] \<and> url \<noteq> []")
      case True
      then have routed: "routed opt" using http v by (simp add: routed_def)
      show ?thesis using x http ne True routed
        by (auto simp: orderedMap_ok [OF strs] v Let_def IH rpcRouted_def matchText_def
            format_text tabs_def httpMatch_text case_prod_unfold update_update)
    next
      case False
      then have "\<not> routed opt" using http v by (simp add: routed_def)
      then show ?thesis using x http ne False
        by (auto simp: orderedMap_ok [OF strs] v Let_def IH rpcRouted_def)
    qed
  qed
qed

lemma rpcRouted_Nil [simp]: "\<not> rpcRouted []"
  by (simp add: rpcRouted_def)

lemma serviceElements_frame [simp]:
  "translatedDeclarations (fst (snd (serviceElements L b w s i es))) = translatedDeclarations b"
  "filename (fst (snd (serviceElements L b w s i es))) = filename b"
  "pkg (fst (snd (serviceElements L b w s i es))) = pkg b"
  "pkgOpts (fst (snd (serviceElements L b w s i es))) = pkgOpts b"
  "imports' (fst (snd (serviceElements L b w s i es))) = imports' b"
  by (induction es arbitrary: b w i;
      simp add: Let_def case_prod_unfold split: visitee.splits option.splits)+

lemma serviceElements_None:
  "(fst (serviceElements L b w s i es) = None) = serviceValid es"
proof (induction es arbitrary: b w i)
  case Nil
  show ?case by (simp add: serviceValid_def)
next
  case (Cons e es)
  have tl: "serviceValid (e # es) = (serviceValid [e] \<and> serviceValid es)"
    by (simp add: serviceValid_def)
  show ?case
  proof (cases e)
    case (VRPC r)
    then have "serviceValid [e] = rpcValid (rpc_Elements r)"
      by (simp add: serviceValid_def)
    then show ?thesis
      unfolding tl using VRPC
      by (simp add: Let_def case_prod_unfold option.case_eq_if rpcElements_None Cons.IH)
  qed (simp_all add: serviceValid_def Cons)
qed

lemma serviceElements_text:
  "serviceValid es \<Longrightarrow>
     snd (snd (serviceElements L b w s i es)) = w @ serviceLines L i es
     \<and> importsUsed (fst (snd (serviceElements L b w s i es))) =
         (if serviceRouted es then Mapping.update ''github.com/gunk/opt/http'' True (importsUsed b)
          else importsUsed b)"
proof (induction es arbitrary: b w i)
  case Nil
  show ?case by (simp add: serviceRouted_def)
next
  case (Cons e es)
  then have rest: "serviceValid es" by (simp add: serviceValid_def)
  note IH = Cons.IH [OF rest]
  show ?case
  proof (cases e)
    case (VRPC r)
    with Cons.prems have rv: "rpcValid (rpc_Elements r)" by (simp add: serviceValid_def)
    have ok: "\<And>b w. fst (rpcElements L b w r (rpc_Comment r) (rpc_Elements r)) = None"
      using rv by (simp add: rpcElements_None)
    show ?thesis using VRPC
      by (simp add: Let_def case_prod_unfold ok IH rpcElements_text [OF rv] rpcText_def
            format_text tabs_def serviceRouted_def update_update)
  next
    case (VOption o')
    then show ?thesis by (simp add: IH serviceRouted_def)
  qed (use Cons.prems in \<open>simp_all add: serviceValid_def\<close>)
qed

lemma handleService_None:
  "(fst (handleService L b s) = None) = serviceValid (service_Elements s)"
  using serviceElements_None [of L b _ s 0 "service_Elements s"]
  by (auto simp: handleService_def Let_def case_prod_unfold split: option.splits)

lemma handleService_blocks:
  "serviceValid (service_Elements s) \<Longrightarrow>
     translatedDeclarations (snd (handleService L b s)) =
       translatedDeclarations b @ [serviceBlock L s]
     \<and> importsUsed (snd (handleService L b s)) =
         (if serviceRouted (service_Elements s)
          then Mapping.update ''github.com/gunk/opt/http'' True (importsUsed b) else importsUsed b)"
  using serviceElements_None [of L b _ s 0 "service_Elements s"]
  by (simp add: handleService_def Let_def case_prod_unfold serviceElements_text
        serviceBlock_def format_text tabs_def)

lemma handleService_frame [simp]:
  "filename (snd (handleService L b s)) = filename b"
  "pkg (snd (handleService L b s)) = pkg b"
  "pkgOpts (snd (handleService L b s)) = pkgOpts b"
  "imports' (snd (handleService L b s)) = imports' b"
  by (simp_all add: handleService_def Let_def case_prod_unfold split: option.splits)

lemma handleProtoType_None:
  "(fst (handleProtoType L b d) = None) = declarationValid d"
  by (cases d)
     (simp_all add: handleProtoType_def declarationValid_def handleMessage_None
        handleEnum_None handleService_None)

lemma handleProtoType_blocks:
  "declarationValid d \<Longrightarrow> hoistingValid d \<Longrightarrow>
     translatedDeclarations (snd (handleProtoType L b d)) =
       translatedDeclarations b @ declarationBlocks L d"
  by (cases d)
     (simp_all add: handleProtoType_def declarationValid_def declarationBlocks_def
        hoistingValid_def handleMessage_hoisted handleEnum_blocks handleService_blocks)

lemma handleProtoType_filename [simp]:
  "filename (snd (handleProtoType L b d)) = filename b"
  by (cases d) (simp_all add: handleProtoType_def)

lemma handleElements_None:
  "(fst (handleElements L b ds) = None) = list_all declarationValid ds"
proof (induction ds arbitrary: b)
  case Nil
  show ?case by simp
next
  case (Cons d ds)
  show ?case
  proof (cases "fst (handleProtoType L b d)")
    case None
    then have "declarationValid d" by (simp add: handleProtoType_None)
    with None show ?thesis by (simp add: case_prod_unfold Cons)
  next
    case (Some err)
    then have "\<not> declarationValid d" using handleProtoType_None [of L b d] by simp
    with Some show ?thesis by (simp add: case_prod_unfold)
  qed
qed

lemma handleElements_blocks:
  "list_all declarationValid ds \<Longrightarrow> list_all hoistingValid ds \<Longrightarrow>
     translatedDeclarations (snd (handleElements L b ds)) =
       translatedDeclarations b @ concat (map (declarationBlocks L) ds)"
proof (induction ds arbitrary: b)
  case Nil
  show ?case by simp
next
  case (Cons d ds)
  then have d: "declarationValid d" and ds: "list_all declarationValid ds"
    and h: "hoistingValid d" and hs: "list_all hoistingValid ds" by simp_all
  have "fst (handleProtoType L b d) = None" using d by (simp add: handleProtoType_None)
  then show ?case
    by (simp add: case_prod_unfold Cons.IH [OF ds hs] handleProtoType_blocks [OF d h])
qed

lemma fileOption_Unhandled:
  "(fileOption L n v = Unhandled) = (n \<notin> set vocabulary)"
  by (simp add: fileOption_def vocabulary_def)

lemma formatError_importsUsed [simp]:
  "formatError (b\<lparr>importsUsed := m\<rparr>) = formatError b"
  by (intro ext) (simp add: formatError_def)

lemma packageOptions_frame [simp]:
  "translatedDeclarations (fst (snd (packageOptions L b opt ga os))) = translatedDeclarations b"
  "filename (fst (snd (packageOptions L b opt ga os))) = filename b"
  "pkg (fst (snd (packageOptions L b opt ga os))) = pkg b"
  "pkgOpts (fst (snd (packageOptions L b opt ga os))) = pkgOpts b"
  "imports' (fst (snd (packageOptions L b opt ga os))) = imports' b"
  "stderr (fst (snd (packageOptions L b opt ga os))) = stderr b"
  by (induction os arbitrary: b opt ga; simp split: file_option.splits)+

lemma packageOptions_error:
  "find (\<lambda>o'. option_Name o' \<notin> set vocabulary) os = Some o' \<Longrightarrow>
     fst (packageOptions L b opt ga os) =
       Some (formatError b (option_Position o')
               (Quote L (option_Name o') @ '' is an unhandled proto file option''))"
proof (induction os arbitrary: b opt ga)
  case Nil
  then show ?case by simp
next
  case (Cons a os)
  show ?case
  proof (cases "option_Name a \<in> set vocabulary")
    case True
    then have "fileOption L (option_Name a) (literal_Source (option_Constant a)) \<noteq> Unhandled"
      by (simp add: fileOption_Unhandled)
    moreover from True Cons.prems
    have "find (\<lambda>o'. option_Name o' \<notin> set vocabulary) os = Some o'" by simp
    ultimately show ?thesis
      by (cases "fileOption L (option_Name a) (literal_Source (option_Constant a))")
         (simp_all add: Cons.IH)
  next
    case False
    then have "fileOption L (option_Name a) (literal_Source (option_Constant a)) = Unhandled"
      by (simp add: fileOption_Unhandled)
    with False Cons.prems show ?thesis by simp
  qed
qed

lemma handlePackage_error:
  "find (\<lambda>o'. option_Name o' \<notin> set vocabulary) (pkgOpts b) = Some o' \<Longrightarrow>
     fst (handlePackage L b) =
       Inl (formatError b (option_Position o')
              (Quote L (option_Name o') @ '' is an unhandled proto file option''))"
  using packageOptions_error [of "pkgOpts b" o' L b None "[]"]
  by (simp add: handlePackage_def case_prod_unfold)

lemma handleProtoType_pkgOpts:
  "pkgOpts (snd (handleProtoType L b d)) = pkgOpts b @ fileOptions [d]"
  by (cases d) (simp_all add: handleProtoType_def fileOptions_def)

lemma fileOptions_Cons: "fileOptions (d # ds) = fileOptions [d] @ fileOptions ds"
  by (simp add: fileOptions_def)

lemma handleElements_pkgOpts:
  "list_all declarationValid ds \<Longrightarrow>
     pkgOpts (snd (handleElements L b ds)) = pkgOpts b @ fileOptions ds"
proof (induction ds arbitrary: b)
  case Nil
  show ?case by (simp add: fileOptions_def)
next
  case (Cons d ds)
  then have d: "declarationValid d" and ds: "list_all declarationValid ds" by simp_all
  have "fst (handleProtoType L b d) = None" using d by (simp add: handleProtoType_None)
  then show ?case
    by (simp add: case_prod_unfold Cons.IH [OF ds] handleProtoType_pkgOpts
          fileOptions_Cons [of d ds])
qed

lemma handleElements_filename [simp]:
  "filename (snd (handleElements L b ds)) = filename b"
  by (induction ds arbitrary: b) (simp_all add: case_prod_unfold split: option.splits)

lemma fold_unhandled_eq:
  "fold (\<lambda>o' b. unhandled L b kind o') os b =
     b\<lparr>stderr := stderr b @ map (\<lambda>o'. errorString (formatError b (option_Position o')
       (''unhandled '' @ kind @ '' option '' @ Quote L (option_Name o')))) os\<rparr>"
proof (induction os arbitrary: b)
  case Nil
  show ?case by simp
next
  case (Cons a os)
  have "formatError (unhandled L b kind a) = formatError b"
    by (intro ext) (simp add: formatError_def)
  then show ?case by (simp add: Cons.IH) (simp add: unhandled_def warn_def)
qed

lemma concat_map_split:
  "x \<in> set xs \<Longrightarrow> \<exists>pre post. concat (map f xs) = pre @ f x @ post"
proof -
  assume "x \<in> set xs"
  then obtain ys zs where "xs = ys @ x # zs" by (auto dest: split_list)
  then have "concat (map f xs) = concat (map f ys) @ f x @ concat (map f zs)" by simp
  then show ?thesis by blast
qed

lemma asciiLib_simps [simp]:
  "ToUpper asciiLib = asciiUpper" "Quote asciiLib = asciiQuote" "Sprintf0 asciiLib = (\<lambda>s. s)"
  "ForceCamelIdentifier asciiLib = capitalize" "CamelToSnake asciiLib = (\<lambda>s. s)"
  by (simp_all add: asciiLib_def)

lemma handlePackage_frame [simp]:
  "translatedDeclarations (snd (handlePackage L b)) = translatedDeclarations b"
  "filename (snd (handlePackage L b)) = filename b"
  "imports' (snd (handlePackage L b)) = imports' b"
  "stderr (snd (handlePackage L b)) = stderr b"
  by (simp_all add: handlePackage_def case_prod_unfold Let_def split: option.splits)

lemma convertFile_Inr:
  "fst (convertFile L name ds order) = Inr text \<Longrightarrow>
     list_all declarationValid ds
     \<and> snd (convertFile L name ds order) =
         snd (handlePackage L (snd (handleElements L (newBuilder name) ds)))"
  using handleElements_None [of L "newBuilder name" ds]
  by (auto simp: convertFile_def case_prod_unfold Let_def
        split: option.splits sum.splits)

lemma orderedMap_Inr:
  "orderedMap L b opt (method, url, body) ls = Inr r \<Longrightarrow>
     r = orderedMapVars (method, url, body) ls"
  by (induction ls arbitrary: "method" "url" "body")
     (auto simp: handleLiteralString_def split: if_splits)

lemma orderedMap_Inr_strings:
  "orderedMap L b opt (method, url, body) ls = Inr r \<Longrightarrow>
     list_all (\<lambda>l. literal_IsString (named_Literal l)) ls"
  by (induction ls arbitrary: "method" "url" "body")
     (auto simp: handleLiteralString_def split: if_splits)

lemma orderedMapVars_body:
  "snd (snd (orderedMapVars (method, url, body) ls)) =
     (let bs = filter (\<lambda>l. named_Name l = ''body'') ls
      in if bs = [] then body else literal_Source (named_Literal (last bs)))"
  by (induction ls arbitrary: "method" "url" "body") (simp_all add: Let_def)

lemma orderedMapVars_verb:
  "fst (orderedMapVars (method, url, body) ls) =
     (let vs = filter (\<lambda>l. named_Name l \<noteq> ''body'') ls
      in if vs = [] then method else named_Name (last vs))
   \<and> fst (snd (orderedMapVars (method, url, body) ls)) =
     (let vs = filter (\<lambda>l. named_Name l \<noteq> ''body'') ls
      in if vs = [] then url else literal_Source (named_Literal (last vs)))"
  by (induction ls arbitrary: "method" "url" "body") (simp_all add: Let_def)

lemma rpcOptionsText_contains:
  "VOption opt \<in> set xs \<Longrightarrow> routed opt \<Longrightarrow>
     \<exists>pre post. fst (rpcOptionsText L c xs) = pre @ matchText L opt @ post"
proof (induction xs arbitrary: c)
  case Nil
  then show ?case by simp
next
  case (Cons x xs)
  show ?case
  proof (cases "x = VOption opt")
    case True
    obtain t c' where r: "rpcOptionsText L None xs = (t, c')"
      by (cases "rpcOptionsText L None xs")
    have "fst (rpcOptionsText L c (x # xs)) =
        (if c \<noteq> None then commentLines 1 c @ [tab] @ ''//\<newline>'' else [])
          @ matchText L opt @ t"
      using True Cons.prems(2) r by simp
    then show ?thesis by blast
  next
    case False
    with Cons.prems have "VOption opt \<in> set xs" by simp
    from Cons.IH [OF this Cons.prems(2)]
    have IH: "\<exists>pre post. fst (rpcOptionsText L c' xs) = pre @ matchText L opt @ post" for c'
      by blast
    show ?thesis
    proof (cases x)
      case (VOption o2)
      show ?thesis
      proof (cases "routed o2")
        case True
        obtain pre post where "fst (rpcOptionsText L None xs) = pre @ matchText L opt @ post"
          using IH by blast
        then have "fst (rpcOptionsText L c (x # xs)) =
          ((if c \<noteq> None then commentLines 1 c @ [tab] @ ''//\<newline>'' else [])
             @ matchText L o2 @ pre) @ matchText L opt @ post"
          using VOption True by (simp add: case_prod_unfold)
        then show ?thesis by blast
      next
        case False
        then show ?thesis using VOption IH by simp
      qed
    qed (use IH in simp_all)
  qed
qed

lemma serviceLines_contains:
  "VRPC r \<in> set es \<Longrightarrow> \<exists>pre post j. serviceLines L i es = pre @ rpcText L j r @ post"
proof (induction es arbitrary: i)
  case Nil
  then show ?case by simp
next
  case (Cons e es)
  show ?case
  proof (cases "e = VRPC r")
    case True
    then have "serviceLines L i (e # es) = [] @ rpcText L i r @ serviceLines L (Suc i) es"
      by simp
    then show ?thesis by blast
  next
    case False
    with Cons.prems have "VRPC r \<in> set es" by simp
    from Cons.IH [OF this, of "Suc i"] obtain pre post j where
      "serviceLines L (Suc i) es = pre @ rpcText L j r @ post" by blast
    then have "serviceLines L i (e # es) =
        ((case e of VRPC r \<Rightarrow> rpcText L i r | _ \<Rightarrow> []) @ pre) @ rpcText L j r @ post"
      by simp
    then show ?thesis by blast
  qed
qed

lemma rpcRouted_member: "VOption opt \<in> set xs \<Longrightarrow> routed opt \<Longrightarrow> rpcRouted xs"
  by (induction xs) (auto simp: rpcRouted_def)

lemma serviceRouted_member:
  "VRPC r \<in> set es \<Longrightarrow> rpcRouted (rpc_Elements r) \<Longrightarrow> serviceRouted es"
  by (induction es) (auto simp: serviceRouted_def)

lemma fold_append_concat:
  "fold (\<lambda>i w. w @ f i) xs w = w @ concat (map f xs)"
  by (induction xs arbitrary: w) simp_all

lemma handleImports_text:
  "handleImports L b ks =
     (if Mapping.is_empty (importsUsed b) \<and> imports' b = [] then []
      else ''import (''
        @ concat (map (\<lambda>i. ''\<newline>'' @ (if Quote L i = [] then []
                                       else [tab] @ Sprintf0 L (Quote L i))) ks)
        @ concat (map (\<lambda>i. ''\<newline>'' @ [tab] @ ''// '' @ Quote L (import_Filename i))
                    (imports' b))
        @ ''\<newline>)'')"
proof -
  have 1: "(\<lambda>i w. let w = format w 0 None ''\<newline>'' ''\<newline>''
                   in format w 1 None (Quote L i) (Sprintf0 L (Quote L i))) =
        (\<lambda>i w. w @ (''\<newline>'' @ (if Quote L i = [] then []
                                 else [tab] @ Sprintf0 L (Quote L i))))"
    by (intro ext) (simp add: format_text tabs_def)
  have 2: "(\<lambda>i w. let w = format w 0 None ''\<newline>'' ''\<newline>''
                   in format w 1 None ''// %q'' (''// '' @ Quote L (import_Filename i))) =
        (\<lambda>i w. w @ (''\<newline>'' @ [tab] @ ''// '' @ Quote L (import_Filename i)))"
    by (intro ext) (simp add: format_text tabs_def)
  show ?thesis
    unfolding handleImports_def 1 2 fold_append_concat
    by (simp add: format_text tabs_def)
qed

lemma rangeOrder_count:
  "rangeOrder m ks \<Longrightarrow> count_list ks p = (if p \<in> Mapping.keys m then 1 else 0)"
proof -
  have "distinct xs \<Longrightarrow> count_list xs p = (if p \<in> set xs then 1 else 0)" for xs :: "string list"
    by (induction xs) auto
  then show "rangeOrder m ks \<Longrightarrow> ?thesis" by (auto simp: rangeOrder_def)
qed

lemma packageOptions_imports:
  "fst (packageOptions L b opt ga os) = None \<Longrightarrow>
     Mapping.keys (importsUsed (fst (snd (packageOptions L b opt ga os)))) =
       Mapping.keys (importsUsed b)
       \<union> set (concat (map (\<lambda>o'. case fileOption L (option_Name o')
                                      (literal_Source (option_Constant o')) of
                                 Annotated impt v \<Rightarrow> [impt] | _ \<Rightarrow> []) os))"
proof (induction os arbitrary: b opt ga)
  case Nil
  show ?case by simp
next
  case (Cons a os)
  show ?case
  proof (cases "fileOption L (option_Name a) (literal_Source (option_Constant a))")
    case GoPackage
    with Cons show ?thesis by simp
  next
    case (Annotated impt v)
    with Cons.prems have "fst (packageOptions L
        (b\<lparr>importsUsed := Mapping.update impt True (importsUsed b)\<rparr>) opt
        (ga @ [Base impt @ ''.'' @ v]) os) = None" by simp
    from Cons.IH [OF this] Annotated show ?thesis by auto
  next
    case Unhandled
    with Cons.prems show ?thesis by simp
  qed
qed

lemma handlePackage_imports:
  "importsUsed (snd (handlePackage L b)) =
     importsUsed (fst (snd (packageOptions L b None [] (pkgOpts b))))"
  by (simp add: handlePackage_def case_prod_unfold Let_def split: option.splits)

lemma handlePackage_Inr:
  "fst (handlePackage L b) = Inr t \<Longrightarrow> fst (packageOptions L b None [] (pkgOpts b)) = None"
  by (auto simp: handlePackage_def case_prod_unfold Let_def split: option.splits)

lemma handleProtoType_imports:
  "declarationValid d \<Longrightarrow>
     Mapping.keys (importsUsed (snd (handleProtoType L b d))) =
       Mapping.keys (importsUsed b)
       \<union> (if (case d of VService s \<Rightarrow> serviceRouted (service_Elements s) | _ \<Rightarrow> False)
          then {''github.com/gunk/opt/http''} else {})"
  by (cases d)
     (simp_all add: handleProtoType_def declarationValid_def handleService_blocks)

lemma handleElements_imports:
  "list_all declarationValid ds \<Longrightarrow>
     Mapping.keys (importsUsed (snd (handleElements L b ds))) =
       Mapping.keys (importsUsed b)
       \<union> (if list_ex (\<lambda>d. case d of VService s \<Rightarrow> serviceRouted (service_Elements s)
                                   | _ \<Rightarrow> False) ds
          then {''github.com/gunk/opt/http''} else {})"
proof (induction ds arbitrary: b)
  case Nil
  show ?case by simp
next
  case (Cons d ds)
  then have d: "declarationValid d" and ds: "list_all declarationValid ds" by simp_all
  have "fst (handleProtoType L b d) = None" using d by (simp add: handleProtoType_None)
  then show ?case
    by (simp add: case_prod_unfold Cons.IH [OF ds] handleProtoType_imports [OF d])
qed

lemma convertFile_imports:
  assumes "fst (convertFile L name ds order) = Inr text"
  shows "Mapping.keys (importsUsed (snd (convertFile L name ds order))) = requiredImports L ds"
proof -
  note c = convertFile_Inr [OF assms]
  from c have v: "list_all declarationValid ds" ..
  let ?b = "snd (handleElements L (newBuilder name) ds)"
  have ok: "fst (handleElements L (newBuilder name) ds) = None"
    using v by (simp add: handleElements_None)
  obtain t where "fst (handlePackage L ?b) = Inr t"
    using assms ok by (auto simp: convertFile_def case_prod_unfold Let_def split: sum.splits)
  then have p: "fst (packageOptions L ?b None [] (pkgOpts ?b)) = None"
    by (rule handlePackage_Inr)
  have o: "pkgOpts ?b = fileOptions ds"
    using handleElements_pkgOpts [OF v, of L "newBuilder name"] by (simp add: newBuilder_def)
  have k: "Mapping.keys (importsUsed (newBuilder name)) = {}" by (simp add: newBuilder_def)
  show ?thesis
    using c packageOptions_imports [OF p] handleElements_imports [OF v, of L "newBuilder name"]
    by (simp add: handlePackage_imports o k requiredImports_def)
qed

lemma iotaPositions_values:
  "list_all (\<lambda>c. case c of VEnumField _ \<Rightarrow> True | _ \<Rightarrow> False) cs \<Longrightarrow>
     iotaPositions i cs =
       (concat (map (\<lambda>c. case c of VEnumField ef \<Rightarrow> [ef_Integer ef] | _ \<Rightarrow> []) cs) =
          map int [i ..< i + length cs])"
proof (induction cs arbitrary: i)
  case Nil
  show ?case by simp
next
  case (Cons c cs)
  then obtain ef where c: "c = VEnumField ef" by (cases c) simp_all
  have "[i ..< i + length (c # cs)] = i # [Suc i ..< Suc i + length cs]"
    by (simp add: upt_rec)
  with Cons c show ?case by auto
qed

lemma fileOption_table:
  "fileOption L ''deprecated'' v = Annotated ''github.com/gunk/opt/file'' (''Deprecated('' @ v @ '')'')"
  "fileOption L ''optimize_for'' v = Annotated ''github.com/gunk/opt/file'' (''OptimizeFor('' @ v @ '')'')"
  "fileOption L ''java_package'' v =
     Annotated ''github.com/gunk/opt/file/java'' (''Package('' @ Quote L v @ '')'')"
  "fileOption L ''java_outer_classname'' v =
     Annotated ''github.com/gunk/opt/file/java'' (''OuterClassname('' @ Quote L v @ '')'')"
  "fileOption L ''java_multiple_files'' v =
     Annotated ''github.com/gunk/opt/file/java'' (''MultipleFiles('' @ v @ '')'')"
  "fileOption L ''java_string_check_utf8'' v =
     Annotated ''github.com/gunk/opt/file/java'' (''StringCheckUtf8('' @ v @ '')'')"
  "fileOption L ''java_generic_services'' v =
     Annotated ''github.com/gunk/opt/file/java'' (''GenericServices('' @ v @ '')'')"
  "fileOption L ''swift_prefix'' v = Annotated ''github.com/gunk/opt/file/swift'' []"
  "fileOption L ''csharp_namespace'' v =
     Annotated ''github.com/gunk/opt/file/csharp'' (''Namespace('' @ Quote L v @ '')'')"
  "fileOption L ''objc_class_prefix'' v =
     Annotated ''github.com/gunk/opt/file/objc'' (''ClassPrefix('' @ Quote L v @ '')'')"
  "fileOption L ''php_generic_services'' v =
     Annotated ''github.com/gunk/opt/file/php'' (''GenericServices('' @ v @ '')'')"
  "fileOption L ''cc_generic_services'' v =
     Annotated ''github.com/gunk/opt/file/cc'' (''GenericServices('' @ v @ '')'')"
  "fileOption L ''cc_enable_arenas'' v =
     Annotated ''github.com/gunk/opt/file/cc'' (''EnableArenas('' @ v @ '')'')"
  by (simp_all add: fileOption_def genAnnotation_def genAnnotationString_def)

text \<open>
  When every nested enum of the document holds enum fields and options only, the
  declarations of a document that translates are written in the order of the document,
  the enums nested in a message in front of the message.
\<close>

lemma declaration_order_valid:
  "fst (convertFile L name ds order) = Inr text \<Longrightarrow> list_all hoistingValid ds \<Longrightarrow>
     translatedDeclarations (snd (convertFile L name ds order)) =
       concat (map (declarationBlocks L) ds)"
proof -
  assume ok: "fst (convertFile L name ds order) = Inr text"
    and h: "list_all hoistingValid ds"
  note c = convertFile_Inr [OF ok]
  from c have v: "list_all declarationValid ds" ..
  show ?thesis
    using c handleElements_blocks [OF v h, of L "newBuilder name"]
    by (simp add: newBuilder_def)
qed

lemma unhandled_options_parts:
  "(find (\<lambda>o'. option_Name o' \<notin> set vocabulary) (fileOptions ds) = Some o' \<longrightarrow>
      (\<exists>err. fst (convertFile L name ds order) = Inl err)
      \<and> (list_all declarationValid ds \<longrightarrow>
           fst (convertFile L name ds order) =
             Inl (Errorf (name @ '':'' @ itoa (Line (option_Position o')) @ '':''
                    @ itoa (Column (option_Position o')) @ '': '' @ Quote L (option_Name o')
                    @ '' is an unhandled proto file option''))))
   \<and> handleMessageField L b w (VNormalField ft) =
       (None,
        b\<lparr>stderr := stderr b @
            map (\<lambda>o'. filename b @ '':'' @ itoa (Line (option_Position o')) @ '':''
                   @ itoa (Column (option_Position o')) @ '': unhandled field option ''
                   @ Quote L (option_Name o')) (nf_Options ft)\<rparr>,
        w @ memberText L (VNormalField ft))
   \<and> (messageValid (message_Elements m) \<and> VNormalField ft \<in> set (message_Elements m) \<longrightarrow>
        fst (handleMessage L b m) = None
        \<and> (\<exists>pre post. last (translatedDeclarations (snd (handleMessage L b m))) =
              pre @ memberText L (VNormalField ft) @ post))"
proof (intro conjI impI)
  assume f: "find (\<lambda>o'. option_Name o' \<notin> set vocabulary) (fileOptions ds) = Some o'"
  have valid: "fst (convertFile L name ds order) =
             Inl (Errorf (name @ '':'' @ itoa (Line (option_Position o')) @ '':''
                    @ itoa (Column (option_Position o')) @ '': '' @ Quote L (option_Name o')
                    @ '' is an unhandled proto file option''))"
    if v: "list_all declarationValid ds"
  proof -
    let ?b = "snd (handleElements L (newBuilder name) ds)"
    have ok: "fst (handleElements L (newBuilder name) ds) = None"
      using v by (simp add: handleElements_None)
    have "pkgOpts ?b = fileOptions ds"
      using handleElements_pkgOpts [OF v, of L "newBuilder name"] by (simp add: newBuilder_def)
    with f have "fst (handlePackage L ?b) =
       Inl (formatError ?b (option_Position o')
              (Quote L (option_Name o') @ '' is an unhandled proto file option''))"
      by (simp add: handlePackage_error)
    moreover have "filename ?b = name" by (simp add: newBuilder_def)
    ultimately show ?thesis using ok
      by (simp add: convertFile_def case_prod_unfold formatError_def)
  qed
  then show "list_all declarationValid ds \<Longrightarrow> fst (convertFile L name ds order) =
             Inl (Errorf (name @ '':'' @ itoa (Line (option_Position o')) @ '':''
                    @ itoa (Column (option_Position o')) @ '': '' @ Quote L (option_Name o')
                    @ '' is an unhandled proto file option''))" .
  show "\<exists>err. fst (convertFile L name ds order) = Inl err"
  proof (cases "list_all declarationValid ds")
    case True
    with valid show ?thesis by blast
  next
    case False
    then obtain err where "fst (handleElements L (newBuilder name) ds) = Some err"
      using handleElements_None [of L "newBuilder name" ds] by auto
    then show ?thesis by (simp add: convertFile_def case_prod_unfold)
  qed
next
  show "handleMessageField L b w (VNormalField ft) =
       (None,
        b\<lparr>stderr := stderr b @
            map (\<lambda>o'. filename b @ '':'' @ itoa (Line (option_Position o')) @ '':''
                   @ itoa (Column (option_Position o')) @ '': unhandled field option ''
                   @ Quote L (option_Name o')) (nf_Options ft)\<rparr>,
        w @ memberText L (VNormalField ft))"
    by (simp add: handleMessageField_normal fold_unhandled_eq formatError_def)
next
  assume "messageValid (message_Elements m) \<and> VNormalField ft \<in> set (message_Elements m)"
  then show "fst (handleMessage L b m) = None"
    by (simp add: handleMessage_None)
next
  assume a: "messageValid (message_Elements m) \<and> VNormalField ft \<in> set (message_Elements m)"
  then obtain pre post where
    "concat (map (memberText L) (message_Elements m)) = pre @ memberText L (VNormalField ft) @ post"
    using concat_map_split [of "VNormalField ft" "message_Elements m" "memberText L"] by blast
  define P where "P = commentLines 0 (message_Comment m) @ ''type '' @ message_Name m
      @ '' struct {\<newline>'' @ pre"
  define Q where "Q = post @ ''}''"
  have "messageBlock L m = P @ memberText L (VNormalField ft) @ Q"
    using \<open>concat (map (memberText L) (message_Elements m)) = _\<close>
    by (simp add: messageBlock_def P_def Q_def)
  moreover have "last (translatedDeclarations (snd (handleMessage L b m))) = messageBlock L m"
    using a by (simp add: handleMessage_blocks)
  ultimately show "\<exists>pre post. last (translatedDeclarations (snd (handleMessage L b m))) =
              pre @ memberText L (VNormalField ft) @ post"
    by metis
qed

lemma unhandled_stderr_mono: "x \<in> set (stderr b) \<Longrightarrow> x \<in> set (stderr (unhandled L b kind o'))"
  by (simp add: unhandled_stderr)

lemma fold_unhandled_stderr_mono:
  "x \<in> set (stderr b) \<Longrightarrow> x \<in> set (stderr (fold (\<lambda>o' b. unhandled L b kind o') os b))"
  by (simp add: fold_unhandled_eq)

lemma enumValueOptions_stderr_mono:
  "x \<in> set (stderr b) \<Longrightarrow> x \<in> set (stderr (enumValueOptions L b xs))"
  unfolding enumValueOptions_def
  by (induction xs arbitrary: b) (auto simp: unhandled_stderr split: visitee.splits)

lemma enumCheck_stderr_mono:
  "x \<in> set (stderr b) \<Longrightarrow> x \<in> set (stderr (fst (snd (enumCheck L b e i oi cs))))"
  by (induction cs arbitrary: b i oi) (auto simp: unhandled_stderr split: visitee.splits)

lemma enumOutput_stderr_mono:
  "x \<in> set (stderr b) \<Longrightarrow> x \<in> set (stderr (fst (enumOutput L b w e oi i cs)))"
  by (induction cs arbitrary: b w i)
     (auto simp: Let_def enumValueOptions_stderr_mono split: visitee.splits)

lemma handleEnum_stderr_mono:
  "x \<in> set (stderr b) \<Longrightarrow> x \<in> set (stderr (snd (handleEnum L b e)))"
  by (simp add: handleEnum_def Let_def case_prod_unfold option.case_eq_if
        enumCheck_stderr_mono enumOutput_stderr_mono)

lemma messageElements_stderr_mono:
  "x \<in> set (stderr b) \<Longrightarrow> x \<in> set (stderr (fst (snd (messageElements L b w m es))))"
  by (induction es arbitrary: b w)
     (auto simp: handleMessageField_normal handleMessageField_map fold_unhandled_eq
        unhandled_stderr handleEnum_stderr_mono split: visitee.splits)

lemma handleMessage_stderr:
  "stderr (snd (handleMessage L b m)) =
     stderr (fst (snd (messageElements L b
        (format [] 0 (message_Comment m) ''type %s struct {\<newline>''
                (''type '' @ message_Name m @ '' struct {\<newline>'')) m (message_Elements m))))"
  by (simp add: handleMessage_def Let_def case_prod_unfold option.case_eq_if)

lemma rpcElements_stderr_mono:
  "x \<in> set (stderr b) \<Longrightarrow> x \<in> set (stderr (fst (snd (rpcElements L b w r c xs))))"
  by (induction xs arbitrary: b w c)
     (auto simp: Let_def unhandled_stderr split: visitee.splits sum.splits)

lemma serviceElements_stderr_mono:
  "x \<in> set (stderr b) \<Longrightarrow> x \<in> set (stderr (fst (snd (serviceElements L b w s i es))))"
  by (induction es arbitrary: b w i)
     (auto simp: Let_def case_prod_unfold option.case_eq_if unhandled_stderr
        rpcElements_stderr_mono split: visitee.splits)

lemma handleService_stderr_mono:
  "x \<in> set (stderr b) \<Longrightarrow> x \<in> set (stderr (snd (handleService L b s)))"
  by (simp add: handleService_def Let_def case_prod_unfold option.case_eq_if
        serviceElements_stderr_mono)

lemma handleProtoType_stderr_mono:
  "x \<in> set (stderr b) \<Longrightarrow> x \<in> set (stderr (snd (handleProtoType L b d)))"
  by (cases d)
     (simp_all add: handleProtoType_def handleEnum_stderr_mono handleService_stderr_mono
        handleMessage_stderr messageElements_stderr_mono)

lemma handleElements_stderr_mono:
  "x \<in> set (stderr b) \<Longrightarrow> x \<in> set (stderr (snd (handleElements L b ds)))"
  by (induction ds arbitrary: b)
     (simp_all add: case_prod_unfold option.case_eq_if handleProtoType_stderr_mono)

lemma formatError_filename: "filename b' = filename b \<Longrightarrow> formatError b' = formatError b"
  by (intro ext) (simp add: formatError_def)

lemma handleMessageField_warns:
  assumes "(\<exists>ft. fld = VNormalField ft) \<or> (\<exists>mf. fld = VMapField mf)"
    and "fo \<in> set (fieldOptions fld)"
  shows "errorString (formatError b (option_Position fo)
           (''unhandled field option '' @ Quote L (option_Name fo)))
         \<in> set (stderr (fst (snd (handleMessageField L b w fld))))"
  using assms
  by (auto simp: handleMessageField_normal handleMessageField_map fold_unhandled_eq
        fieldOptions_def)

lemma handleMessageField_filename:
  "(\<exists>ft. fld = VNormalField ft) \<or> (\<exists>mf. fld = VMapField mf) \<Longrightarrow>
     filename (fst (snd (handleMessageField L b w fld))) = filename b"
  by (auto simp: handleMessageField_normal handleMessageField_map)

lemma handleMessageField_None:
  "(\<exists>ft. fld = VNormalField ft) \<or> (\<exists>mf. fld = VMapField mf) \<Longrightarrow>
     fst (handleMessageField L b w fld) = None"
  by (auto simp: handleMessageField_normal handleMessageField_map)

lemma messageElements_warns:
  assumes "messageValid es"
    and "fld \<in> set es"
    and "(\<exists>ft. fld = VNormalField ft) \<or> (\<exists>mf. fld = VMapField mf)"
    and "fo \<in> set (fieldOptions fld)"
  shows "errorString (formatError b (option_Position fo)
           (''unhandled field option '' @ Quote L (option_Name fo)))
         \<in> set (stderr (fst (snd (messageElements L b w m es))))"
  using assms(1,2)
proof (induction es arbitrary: b w)
  case Nil
  then show ?case by simp
next
  case (Cons e es)
  let ?line = "\<lambda>b. errorString (formatError b (option_Position fo)
           (''unhandled field option '' @ Quote L (option_Name fo)))"
  from Cons.prems have rest: "messageValid es" by (simp add: messageValid_def)
  show ?case
  proof (cases "e = fld")
    case True
    let ?r = "handleMessageField L b w fld"
    have none: "fst ?r = None" using assms(3) by (rule handleMessageField_None)
    have "?line b \<in> set (stderr (fst (snd ?r)))"
      using handleMessageField_warns [OF assms(3,4)] .
    then have "?line b \<in> set (stderr (fst (snd
        (messageElements L (fst (snd ?r)) (snd (snd ?r)) m es))))"
      by (rule messageElements_stderr_mono)
    then show ?thesis
      using True none assms(3) by (auto simp: case_prod_unfold)
  next
    case False
    with Cons.prems have mem: "fld \<in> set es" by simp
    note IH = Cons.IH [OF rest mem]
    show ?thesis
    proof (cases e)
      case (VNormalField f)
      have "?line (fold (\<lambda>o' b. unhandled L b ''field'' o') (nf_Options f) b)
          \<in> set (stderr (fst (snd (messageElements L
               (fold (\<lambda>o' b. unhandled L b ''field'' o') (nf_Options f) b)
               (w @ memberText L (VNormalField f)) m es))))"
        by (rule IH)
      moreover have "formatError (fold (\<lambda>o' b. unhandled L b ''field'' o') (nf_Options f) b)
          = formatError b" by (rule formatError_filename) simp
      ultimately show ?thesis using VNormalField
        by (simp add: handleMessageField_normal)
    next
      case (VMapField f)
      have "?line (fold (\<lambda>o' b. unhandled L b ''field'' o') (mf_Options f) b)
          \<in> set (stderr (fst (snd (messageElements L
               (fold (\<lambda>o' b. unhandled L b ''field'' o') (mf_Options f) b)
               (w @ memberText L (VMapField f)) m es))))"
        by (rule IH)
      moreover have "formatError (fold (\<lambda>o' b. unhandled L b ''field'' o') (mf_Options f) b)
          = formatError b" by (rule formatError_filename) simp
      ultimately show ?thesis using VMapField
        by (simp add: handleMessageField_map)
    next
      case (VEnum en)
      have "?line (snd (handleEnum L b en))
          \<in> set (stderr (fst (snd (messageElements L (snd (handleEnum L b en)) w m es))))"
        by (rule IH)
      moreover have "formatError (snd (handleEnum L b en)) = formatError b"
        by (rule formatError_filename) simp
      ultimately show ?thesis using VEnum by simp
    next
      case (VComment c)
      then show ?thesis using IH by simp
    next
      case (VOption o2)
      have "?line (unhandled L b ''message'' o2)
          \<in> set (stderr (fst (snd (messageElements L (unhandled L b ''message'' o2) w m es))))"
        by (rule IH)
      moreover have "formatError (unhandled L b ''message'' o2) = formatError b"
        by (rule formatError_filename) simp
      ultimately show ?thesis using VOption by simp
    qed (use Cons.prems in \<open>simp_all add: messageValid_def\<close>)
  qed
qed

lemma handleElements_warns:
  assumes "list_all declarationValid ds"
    and "VMessage m \<in> set ds"
    and "fld \<in> set (message_Elements m)"
    and "(\<exists>ft. fld = VNormalField ft) \<or> (\<exists>mf. fld = VMapField mf)"
    and "fo \<in> set (fieldOptions fld)"
  shows "errorString (formatError b (option_Position fo)
           (''unhandled field option '' @ Quote L (option_Name fo)))
         \<in> set (stderr (snd (handleElements L b ds)))"
  using assms(1,2)
proof (induction ds arbitrary: b)
  case Nil
  then show ?case by simp
next
  case (Cons d ds)
  let ?line = "\<lambda>b. errorString (formatError b (option_Position fo)
           (''unhandled field option '' @ Quote L (option_Name fo)))"
  from Cons.prems have d: "declarationValid d" and ds: "list_all declarationValid ds"
    by simp_all
  have none: "fst (handleProtoType L b d) = None" using d by (simp add: handleProtoType_None)
  show ?case
  proof (cases "d = VMessage m")
    case True
    then have mv: "messageValid (message_Elements m)" using d by (simp add: declarationValid_def)
    have "?line b \<in> set (stderr (snd (handleProtoType L b d)))"
      using True messageElements_warns [OF mv assms(3,4,5)]
      by (simp add: handleProtoType_def handleMessage_stderr)
    then have "?line b \<in> set (stderr (snd (handleElements L (snd (handleProtoType L b d)) ds)))"
      by (rule handleElements_stderr_mono)
    then show ?thesis using none by (simp add: case_prod_unfold)
  next
    case False
    with Cons.prems have "VMessage m \<in> set ds" by simp
    from Cons.IH [OF ds this, of "snd (handleProtoType L b d)"]
    have "?line (snd (handleProtoType L b d))
        \<in> set (stderr (snd (handleElements L (snd (handleProtoType L b d)) ds)))" .
    moreover have "formatError (snd (handleProtoType L b d)) = formatError b"
      by (rule formatError_filename) simp
    ultimately show ?thesis using none by (simp add: case_prod_unfold)
  qed
qed

lemma handleProtoType_blocks_mono:
  "declarationValid d \<Longrightarrow> x \<in> set (translatedDeclarations b) \<Longrightarrow>
     x \<in> set (translatedDeclarations (snd (handleProtoType L b d)))"
  by (cases d)
     (simp_all add: handleProtoType_def declarationValid_def handleMessage_blocks
        handleEnum_blocks handleService_blocks)

lemma handleElements_blocks_mono:
  "list_all declarationValid ds \<Longrightarrow> x \<in> set (translatedDeclarations b) \<Longrightarrow>
     x \<in> set (translatedDeclarations (snd (handleElements L b ds)))"
proof (induction ds arbitrary: b)
  case Nil
  then show ?case by simp
next
  case (Cons d ds)
  then have d: "declarationValid d" and ds: "list_all declarationValid ds" by simp_all
  have none: "fst (handleProtoType L b d) = None" using d by (simp add: handleProtoType_None)
  from Cons.IH [OF ds handleProtoType_blocks_mono [OF d Cons.prems(2)]]
  show ?case using none by (simp add: case_prod_unfold)
qed

lemma handleElements_message_block:
  "list_all declarationValid ds \<Longrightarrow> VMessage m \<in> set ds \<Longrightarrow>
     messageBlock L m \<in> set (translatedDeclarations (snd (handleElements L b ds)))"
proof (induction ds arbitrary: b)
  case Nil
  then show ?case by simp
next
  case (Cons d ds)
  then have d: "declarationValid d" and ds: "list_all declarationValid ds" by simp_all
  have none: "fst (handleProtoType L b d) = None" using d by (simp add: handleProtoType_None)
  show ?case
  proof (cases "d = VMessage m")
    case True
    then have mv: "messageValid (message_Elements m)" using d by (simp add: declarationValid_def)
    have "messageBlock L m \<in> set (translatedDeclarations (snd (handleProtoType L b d)))"
      using True by (simp add: handleProtoType_def handleMessage_blocks [OF mv])
    from handleElements_blocks_mono [OF ds this]
    show ?thesis using none by (simp add: case_prod_unfold)
  next
    case False
    with Cons.prems have "VMessage m \<in> set ds" by simp
    from Cons.IH [OF ds this]
    show ?thesis using none by (simp add: case_prod_unfold)
  qed
qed

lemma packageOptions_ok:
  "\<forall>o' \<in> set os. option_Name o' \<in> set vocabulary \<Longrightarrow>
     fst (packageOptions L b opt ga os) = None"
proof (induction os arbitrary: b opt ga)
  case Nil
  show ?case by simp
next
  case (Cons a os)
  then have "fileOption L (option_Name a) (literal_Source (option_Constant a)) \<noteq> Unhandled"
    by (simp add: fileOption_Unhandled)
  with Cons show ?case
    by (cases "fileOption L (option_Name a) (literal_Source (option_Constant a))") simp_all
qed

lemma handlePackage_ok:
  "\<forall>o' \<in> set (pkgOpts b). option_Name o' \<in> set vocabulary \<Longrightarrow> pkg b \<noteq> None \<Longrightarrow>
     \<exists>t. fst (handlePackage L b) = Inr t"
  using packageOptions_ok [of "pkgOpts b" L b None "[]"]
  by (auto simp: handlePackage_def case_prod_unfold Let_def)

lemma handleProtoType_pkg:
  "declarationValid d \<Longrightarrow>
     pkg (snd (handleProtoType L b d)) = (case d of VPackage p \<Rightarrow> Some p | _ \<Rightarrow> pkg b)"
  by (cases d) (simp_all add: handleProtoType_def declarationValid_def)

lemma handleElements_pkg:
  "list_all declarationValid ds \<Longrightarrow> pkg b \<noteq> None \<or> (\<exists>p. VPackage p \<in> set ds) \<Longrightarrow>
     pkg (snd (handleElements L b ds)) \<noteq> None"
proof (induction ds arbitrary: b)
  case Nil
  then show ?case by simp
next
  case (Cons d ds)
  then have d: "declarationValid d" and ds: "list_all declarationValid ds" by simp_all
  have none: "fst (handleProtoType L b d) = None" using d by (simp add: handleProtoType_None)
  have "pkg (snd (handleProtoType L b d)) \<noteq> None \<or> (\<exists>p. VPackage p \<in> set ds)"
    using Cons.prems(2) handleProtoType_pkg [OF d, of L b] by (cases d) auto
  from Cons.IH [OF ds this] show ?case using none by (simp add: case_prod_unfold)
qed

lemma convertFile_text:
  assumes "fst (convertFile L name ds order) = Inr text"
    and "x \<in> set (translatedDeclarations (snd (convertFile L name ds order)))"
  shows "\<exists>pre post. text = pre @ x @ post"
proof -
  let ?b = "snd (handleElements L (newBuilder name) ds)"
  let ?p = "handlePackage L ?b"
  note c = convertFile_Inr [OF assms(1)]
  from c have v: "list_all declarationValid ds" ..
  have ok: "fst (handleElements L (newBuilder name) ds) = None"
    using v by (simp add: handleElements_None)
  obtain t where t: "fst ?p = Inr t"
    using assms(1) ok by (auto simp: convertFile_def case_prod_unfold Let_def split: sum.splits)
  obtain P where tx: "text = P @ concat (map (\<lambda>l. ''\<newline>'' @ l @ ''\<newline>'')
      (translatedDeclarations (snd ?p)))"
    using assms(1) ok t
    by (auto simp: convertFile_def case_prod_unfold Let_def fold_append_concat
          split: if_splits)
  have "x \<in> set (translatedDeclarations (snd ?p))"
    using assms(2) c by simp
  from concat_map_split [OF this, of "\<lambda>l. ''\<newline>'' @ l @ ''\<newline>''"]
  obtain q1 q2 where "concat (map (\<lambda>l. ''\<newline>'' @ l @ ''\<newline>'') (translatedDeclarations (snd ?p)))
      = q1 @ (''\<newline>'' @ x @ ''\<newline>'') @ q2" by blast
  then have "text = (P @ q1 @ ''\<newline>'') @ x @ (''\<newline>'' @ q2)"
    using tx by simp
  then show ?thesis by blast
qed

lemma convertFile_ok:
  assumes "list_all declarationValid ds"
    and "VPackage p \<in> set ds"
    and "\<forall>o' \<in> set (fileOptions ds). option_Name o' \<in> set vocabulary"
  shows "\<exists>text. fst (convertFile L name ds order) = Inr text"
proof -
  let ?b = "snd (handleElements L (newBuilder name) ds)"
  have ok: "fst (handleElements L (newBuilder name) ds) = None"
    using assms(1) by (simp add: handleElements_None)
  have o: "pkgOpts ?b = fileOptions ds"
    using handleElements_pkgOpts [OF assms(1), of L "newBuilder name"]
    by (simp add: newBuilder_def)
  have "pkg ?b \<noteq> None"
    using handleElements_pkg [OF assms(1), of "newBuilder name" L] assms(2) by blast
  from handlePackage_ok [of ?b L] this assms(3) o
  obtain t where "fst (handlePackage L ?b) = Inr t" by auto
  then show ?thesis using ok
    by (simp add: convertFile_def case_prod_unfold Let_def)
qed

lemma field_in_output:
  assumes v: "list_all declarationValid ds"
    and p: "VPackage p \<in> set ds"
    and r: "\<forall>o' \<in> set (fileOptions ds). option_Name o' \<in> set vocabulary"
    and m: "VMessage m \<in> set ds"
    and f: "fld \<in> set (message_Elements m)"
    and k: "(\<exists>ft. fld = VNormalField ft) \<or> (\<exists>mf. fld = VMapField mf)"
  shows "(\<exists>text pre post. fst (convertFile L name ds order) = Inr text
            \<and> text = pre @ memberText L fld @ post)
     \<and> (\<forall>fo \<in> set (fieldOptions fld).
           name @ '':'' @ itoa (Line (option_Position fo)) @ '':''
             @ itoa (Column (option_Position fo)) @ '': unhandled field option ''
             @ Quote L (option_Name fo)
           \<in> set (stderr (snd (convertFile L name ds order))))"
proof -
  let ?b = "snd (handleElements L (newBuilder name) ds)"
  obtain "text" where ok: "fst (convertFile L name ds order) = Inr text"
    using convertFile_ok [OF v p r] by blast
  note c = convertFile_Inr [OF ok]
  have blk: "messageBlock L m \<in> set (translatedDeclarations (snd (convertFile L name ds order)))"
    using c handleElements_message_block [OF v m, of L "newBuilder name"] by simp
  obtain p1 q1 where t1: "text = p1 @ messageBlock L m @ q1"
    using convertFile_text [OF ok blk] by blast
  obtain p2 q2 where
    "concat (map (memberText L) (message_Elements m)) = p2 @ memberText L fld @ q2"
    using concat_map_split [OF f, of "memberText L"] by blast
  then have "messageBlock L m =
      (commentLines 0 (message_Comment m) @ ''type '' @ message_Name m @ '' struct {\<newline>'' @ p2)
        @ memberText L fld @ (q2 @ ''}'')"
    by (simp add: messageBlock_def)
  then obtain p3 q3 where "messageBlock L m = p3 @ memberText L fld @ q3" by blast
  then have "text = (p1 @ p3) @ memberText L fld @ (q3 @ q1)"
    using t1 by simp
  then have 1: "\<exists>text pre post. fst (convertFile L name ds order) = Inr text
            \<and> text = pre @ memberText L fld @ post"
    using ok by blast
  have 2: "name @ '':'' @ itoa (Line (option_Position fo)) @ '':''
             @ itoa (Column (option_Position fo)) @ '': unhandled field option ''
             @ Quote L (option_Name fo)
           \<in> set (stderr (snd (convertFile L name ds order)))"
    if fo: "fo \<in> set (fieldOptions fld)" for fo
  proof -
    have "errorString (formatError (newBuilder name) (option_Position fo)
           (''unhandled field option '' @ Quote L (option_Name fo)))
         \<in> set (stderr ?b)"
      using handleElements_warns [OF v m f k fo] .
    moreover have "stderr (snd (convertFile L name ds order)) = stderr ?b"
      using c by simp
    ultimately show ?thesis
      by (simp add: formatError_def newBuilder_def)
  qed
  from 1 2 show ?thesis by blast
qed

section \<open>Theorems\<close>

text \<open>
  C8. The type mapper has no error path (it is a total function into strings); the
  fifteen scalar names map to bool, string, []byte, float64, float32, int, int32, int32,
  int64, int64, int64, uint32, uint32, uint64, uint64 in the order of \<open>scalarNames\<close>,
  and every other name maps to itself.
\<close>

theorem goType_table:
  "map goType scalarNames =
     [''bool'', ''string'', ''[]byte'', ''float64'', ''float32'', ''int'', ''int32'',
      ''int32'', ''int64'', ''int64'', ''int64'', ''uint32'', ''uint32'', ''uint64'',
      ''uint64'']
   \<and> length scalarNames = 15 \<and> distinct scalarNames
   \<and> (\<forall>t. t \<notin> set scalarNames \<longrightarrow> goType t = t)"
  by (simp add: goType_def scalarNames_def)

theorem goType_table_witness:
  "''Status'' \<notin> set scalarNames \<and> goType ''Status'' = ''Status''
   \<and> goType ''sfixed64'' = ''int64''"
  using goType_table by (simp add: goType_def scalarNames_def)

text \<open>
  C4. A file-level option whose name is outside the vocabulary makes \<^verbatim>\<open>convertFile\<close>
  return an error and no text; when the declarations of the document translate, that
  error is the message \<^verbatim>\<open>"<name>" is an unhandled proto file option\<close> prefixed with the
  file name and the line and column of the first such option. An option on a message
  field, plain or map, adds one line \<^verbatim>\<open>unhandled field option "<name>"\<close> to the
  diagnostics; the field handler returns no error and writes the member. For a document
  whose declarations translate, which has a package and whose file options are all in
  the vocabulary, \<^verbatim>\<open>convertFile\<close> returns a text whatever options its fields carry,
  the member of every field of every message is part of that text, and the diagnostics
  hold the line of every option of the field.
\<close>

theorem unhandled_options:
  "(find (\<lambda>o'. option_Name o' \<notin> set vocabulary) (fileOptions ds) = Some o' \<longrightarrow>
      (\<exists>err. fst (convertFile L name ds order) = Inl err)
      \<and> (list_all declarationValid ds \<longrightarrow>
           fst (convertFile L name ds order) =
             Inl (Errorf (name @ '':'' @ itoa (Line (option_Position o')) @ '':''
                    @ itoa (Column (option_Position o')) @ '': '' @ Quote L (option_Name o')
                    @ '' is an unhandled proto file option''))))
   \<and> handleMessageField L b w (VNormalField ft) =
       (None,
        b\<lparr>stderr := stderr b @
            map (\<lambda>o'. filename b @ '':'' @ itoa (Line (option_Position o')) @ '':''
                   @ itoa (Column (option_Position o')) @ '': unhandled field option ''
                   @ Quote L (option_Name o')) (nf_Options ft)\<rparr>,
        w @ memberText L (VNormalField ft))
   \<and> handleMessageField L b w (VMapField mf) =
       (None,
        b\<lparr>stderr := stderr b @
            map (\<lambda>o'. filename b @ '':'' @ itoa (Line (option_Position o')) @ '':''
                   @ itoa (Column (option_Position o')) @ '': unhandled field option ''
                   @ Quote L (option_Name o')) (mf_Options mf)\<rparr>,
        w @ memberText L (VMapField mf))
   \<and> (messageValid (message_Elements m) \<and> VNormalField ft \<in> set (message_Elements m) \<longrightarrow>
        fst (handleMessage L b m) = None
        \<and> (\<exists>pre post. last (translatedDeclarations (snd (handleMessage L b m))) =
              pre @ memberText L (VNormalField ft) @ post))
   \<and> (list_all declarationValid ds2 \<and> VPackage p \<in> set ds2
        \<and> (\<forall>o2 \<in> set (fileOptions ds2). option_Name o2 \<in> set vocabulary)
        \<and> VMessage m2 \<in> set ds2 \<and> fld \<in> set (message_Elements m2)
        \<and> ((\<exists>ft. fld = VNormalField ft) \<or> (\<exists>mf. fld = VMapField mf)) \<longrightarrow>
        (\<exists>text pre post. fst (convertFile L name ds2 order) = Inr text
            \<and> text = pre @ memberText L fld @ post)
        \<and> (\<forall>fo \<in> set (fieldOptions fld).
              name @ '':'' @ itoa (Line (option_Position fo)) @ '':''
                @ itoa (Column (option_Position fo)) @ '': unhandled field option ''
                @ Quote L (option_Name fo)
              \<in> set (stderr (snd (convertFile L name ds2 order)))))"
proof -
  have mapf: "handleMessageField L b w (VMapField mf) =
       (None,
        b\<lparr>stderr := stderr b @
            map (\<lambda>o'. filename b @ '':'' @ itoa (Line (option_Position o')) @ '':''
                   @ itoa (Column (option_Position o')) @ '': unhandled field option ''
                   @ Quote L (option_Name o')) (mf_Options mf)\<rparr>,
        w @ memberText L (VMapField mf))"
    by (simp add: handleMessageField_map fold_unhandled_eq formatError_def)
  have out: "(\<exists>text pre post. fst (convertFile L name ds2 order) = Inr text
            \<and> text = pre @ memberText L fld @ post)
        \<and> (\<forall>fo \<in> set (fieldOptions fld).
              name @ '':'' @ itoa (Line (option_Position fo)) @ '':''
                @ itoa (Column (option_Position fo)) @ '': unhandled field option ''
                @ Quote L (option_Name fo)
              \<in> set (stderr (snd (convertFile L name ds2 order))))"
    if "list_all declarationValid ds2 \<and> VPackage p \<in> set ds2
        \<and> (\<forall>o2 \<in> set (fileOptions ds2). option_Name o2 \<in> set vocabulary)
        \<and> VMessage m2 \<in> set ds2 \<and> fld \<in> set (message_Elements m2)
        \<and> ((\<exists>ft. fld = VNormalField ft) \<or> (\<exists>mf. fld = VMapField mf))"
    using that field_in_output [of ds2 p m2 fld L name order] by blast
  show ?thesis
    using unhandled_options_parts [of ds o' L name order b w ft m] mapf out
    by blast
qed

theorem unhandled_options_witness:
  \<open>find (\<lambda>o'. option_Name o' \<notin> set vocabulary) (fileOptions customDocument) = Some customOption
   \<and> list_all declarationValid customDocument
   \<and> fst (convertFile asciiLib ''util.proto'' customDocument javaOrder) =
       Inl (Errorf ''util.proto:2:1: "totally_custom_option" is an unhandled proto file option'')
   \<and> messageValid (message_Elements msgMessage)
   \<and> VNormalField msgField \<in> set (message_Elements msgMessage)
   \<and> handleMessageField asciiLib (newBuilder ''util.proto'') [] (VNormalField msgField) =
       (None,
        (newBuilder ''util.proto'')
          \<lparr>stderr := [''util.proto:4:19: unhandled field option "custom"'']\<rparr>,
        tab # ''Msg string `pb:"1" json:"msg"`\<newline>'')
   \<and> handleMessageField asciiLib (newBuilder ''util.proto'') [] (VMapField labelsField) =
       (None,
        (newBuilder ''util.proto'')
          \<lparr>stderr := [''util.proto:3:38: unhandled field option "custom"'']\<rparr>,
        tab # ''Labels map[string]string `pb:"1" json:"labels"`\<newline>'')
   \<and> fst (handleMessage asciiLib (newBuilder ''util.proto'') msgMessage) = None
   \<and> list_all declarationValid javaDocument
   \<and> VPackage (Package None ''util'') \<in> set javaDocument
   \<and> map option_Name (fileOptions javaDocument) = [''java_package'', ''java_multiple_files'']
   \<and> VMessage msgMessage \<in> set javaDocument
   \<and> fieldOptions (VNormalField msgField) = [Option (at 4 19) None ''custom'' (str ''x'')]
   \<and> (\<exists>text pre post.
         fst (convertFile asciiLib ''util.proto'' javaDocument javaOrder) = Inr text
         \<and> text = pre @ tab # ''Msg string `pb:"1" json:"msg"`\<newline>'' @ post)
   \<and> ''util.proto:4:19: unhandled field option "custom"''
       \<in> set (stderr (snd (convertFile asciiLib ''util.proto'' javaDocument javaOrder)))
   \<and> list_all declarationValid labelsDocument
   \<and> VMessage labelsMessage \<in> set labelsDocument
   \<and> VMapField labelsField \<in> set (message_Elements labelsMessage)
   \<and> (\<exists>text pre post.
         fst (convertFile asciiLib ''util.proto'' labelsDocument javaOrder) = Inr text
         \<and> text = pre @ tab # ''Labels map[string]string `pb:"1" json:"labels"`\<newline>'' @ post)
   \<and> ''util.proto:3:38: unhandled field option "custom"''
       \<in> set (stderr (snd (convertFile asciiLib ''util.proto'' labelsDocument javaOrder)))\<close>
proof -
  let ?B = "newBuilder ''util.proto''"
  have h1: "find (\<lambda>o'. option_Name o' \<notin> set vocabulary) (fileOptions customDocument)
      = Some customOption"
    and h2: "list_all declarationValid customDocument"
    and h3: "messageValid (message_Elements msgMessage)"
    and h4: "VNormalField msgField \<in> set (message_Elements msgMessage)"
    by code_simp+
  have j1: "list_all declarationValid javaDocument"
    and j2: "VPackage (Package None ''util'') \<in> set javaDocument"
    and j3: "\<forall>o2 \<in> set (fileOptions javaDocument). option_Name o2 \<in> set vocabulary"
    and j4: "VMessage msgMessage \<in> set javaDocument"
    and j5: "map option_Name (fileOptions javaDocument) =
      [''java_package'', ''java_multiple_files'']"
    by code_simp+
  have l1: "list_all declarationValid labelsDocument"
    and l2: "VPackage (Package None ''util'') \<in> set labelsDocument"
    and l3: "\<forall>o2 \<in> set (fileOptions labelsDocument). option_Name o2 \<in> set vocabulary"
    and l4: "VMessage labelsMessage \<in> set labelsDocument"
    and l5: "VMapField labelsField \<in> set (message_Elements labelsMessage)"
    by code_simp+
  have e: \<open>Errorf (''util.proto'' @ '':'' @ itoa (Line (option_Position customOption)) @ '':''
                    @ itoa (Column (option_Position customOption)) @ '': ''
                    @ asciiQuote (option_Name customOption)
                    @ '' is an unhandled proto file option'') =
       Errorf ''util.proto:2:1: "totally_custom_option" is an unhandled proto file option''\<close>
    by code_simp
  have s1: \<open>?B\<lparr>stderr := stderr ?B @
            map (\<lambda>o'. filename ?B @ '':'' @ itoa (Line (option_Position o')) @ '':''
                   @ itoa (Column (option_Position o')) @ '': unhandled field option ''
                   @ asciiQuote (option_Name o')) (nf_Options msgField)\<rparr> =
        ?B\<lparr>stderr := [''util.proto:4:19: unhandled field option "custom"'']\<rparr>\<close>
    and s2: \<open>?B\<lparr>stderr := stderr ?B @
            map (\<lambda>o'. filename ?B @ '':'' @ itoa (Line (option_Position o')) @ '':''
                   @ itoa (Column (option_Position o')) @ '': unhandled field option ''
                   @ asciiQuote (option_Name o')) (mf_Options labelsField)\<rparr> =
        ?B\<lparr>stderr := [''util.proto:3:38: unhandled field option "custom"'']\<rparr>\<close>
    by code_simp+
  have t1: \<open>memberText asciiLib (VNormalField msgField) =
      tab # ''Msg string `pb:"1" json:"msg"`\<newline>''\<close>
    and t2: \<open>memberText asciiLib (VMapField labelsField) =
      tab # ''Labels map[string]string `pb:"1" json:"labels"`\<newline>''\<close>
    by code_simp+
  have f1: "fieldOptions (VNormalField msgField) = [Option (at 4 19) None ''custom'' (str ''x'')]"
    and f2: "fieldOptions (VMapField labelsField) = [Option (at 3 38) None ''custom'' (str ''y'')]"
    by code_simp+
  have w1: \<open>''util.proto'' @ '':'' @ itoa (Line (option_Position (Option (at 4 19) None ''custom'' (str ''x'')))) @ '':''
                @ itoa (Column (option_Position (Option (at 4 19) None ''custom'' (str ''x'')))) @ '': unhandled field option ''
                @ asciiQuote (option_Name (Option (at 4 19) None ''custom'' (str ''x''))) =
       ''util.proto:4:19: unhandled field option "custom"''\<close>
    and w2: \<open>''util.proto'' @ '':'' @ itoa (Line (option_Position (Option (at 3 38) None ''custom'' (str ''y'')))) @ '':''
                @ itoa (Column (option_Position (Option (at 3 38) None ''custom'' (str ''y'')))) @ '': unhandled field option ''
                @ asciiQuote (option_Name (Option (at 3 38) None ''custom'' (str ''y''))) =
       ''util.proto:3:38: unhandled field option "custom"''\<close>
    by code_simp+
  note A = unhandled_options [of customDocument customOption asciiLib "''util.proto''" javaOrder
      ?B "[]" msgField labelsField msgMessage javaDocument "Package None ''util''" msgMessage
      "VNormalField msgField"]
  note B = unhandled_options [of customDocument customOption asciiLib "''util.proto''" javaOrder
      ?B "[]" msgField labelsField msgMessage labelsDocument "Package None ''util''"
      labelsMessage "VMapField labelsField"]
  have a1: "fst (convertFile asciiLib ''util.proto'' customDocument javaOrder) =
       Inl (Errorf ''util.proto:2:1: \"totally_custom_option\" is an unhandled proto file option'')"
    using A h1 h2 e by simp
  have a2: "handleMessageField asciiLib ?B [] (VNormalField msgField) =
       (None, ?B\<lparr>stderr := [''util.proto:4:19: unhandled field option \"custom\"'']\<rparr>,
        memberText asciiLib (VNormalField msgField))"
    using A s1 by simp
  have a3: "handleMessageField asciiLib ?B [] (VMapField labelsField) =
       (None, ?B\<lparr>stderr := [''util.proto:3:38: unhandled field option \"custom\"'']\<rparr>,
        memberText asciiLib (VMapField labelsField))"
    using A s2 by simp
  have a4: "fst (handleMessage asciiLib ?B msgMessage) = None"
    using A h3 h4 by blast
  have a5: "(\<exists>text pre post.
         fst (convertFile asciiLib ''util.proto'' javaDocument javaOrder) = Inr text
         \<and> text = pre @ memberText asciiLib (VNormalField msgField) @ post)
      \<and> (\<forall>fo \<in> set (fieldOptions (VNormalField msgField)).
            ''util.proto'' @ '':'' @ itoa (Line (option_Position fo)) @ '':''
                @ itoa (Column (option_Position fo)) @ '': unhandled field option ''
                @ asciiQuote (option_Name fo)
            \<in> set (stderr (snd (convertFile asciiLib ''util.proto'' javaDocument javaOrder))))"
    using A j1 j2 j3 j4 h4 by simp
  have a6: "(\<exists>text pre post.
         fst (convertFile asciiLib ''util.proto'' labelsDocument javaOrder) = Inr text
         \<and> text = pre @ memberText asciiLib (VMapField labelsField) @ post)
      \<and> (\<forall>fo \<in> set (fieldOptions (VMapField labelsField)).
            ''util.proto'' @ '':'' @ itoa (Line (option_Position fo)) @ '':''
                @ itoa (Column (option_Position fo)) @ '': unhandled field option ''
                @ asciiQuote (option_Name fo)
            \<in> set (stderr (snd (convertFile asciiLib ''util.proto'' labelsDocument javaOrder))))"
    using B l1 l2 l3 l4 l5 by simp
  have a7: "''util.proto:4:19: unhandled field option \"custom\"''
       \<in> set (stderr (snd (convertFile asciiLib ''util.proto'' javaDocument javaOrder)))"
    using a5 unfolding f1 by (simp only: list.set ball_simps w1)
  have a8: "''util.proto:3:38: unhandled field option \"custom\"''
       \<in> set (stderr (snd (convertFile asciiLib ''util.proto'' labelsDocument javaOrder)))"
    using a6 unfolding f2 by (simp only: list.set ball_simps w2)
  note x2 = a2 [unfolded t1] and x3 = a3 [unfolded t2]
    and x5 = conjunct1 [OF a5 [unfolded t1]] and x6 = conjunct1 [OF a6 [unfolded t2]]
  have y5: \<open>\<exists>text pre post.
         fst (convertFile asciiLib ''util.proto'' javaDocument javaOrder) = Inr text
         \<and> text = pre @ tab # ''Msg string `pb:"1" json:"msg"`\<newline>'' @ post\<close>
    using x5 by simp
  have y6: \<open>\<exists>text pre post.
         fst (convertFile asciiLib ''util.proto'' labelsDocument javaOrder) = Inr text
         \<and> text = pre @ tab # ''Labels map[string]string `pb:"1" json:"labels"`\<newline>'' @ post\<close>
    using x6 by simp
  show ?thesis
    by (intro conjI; fact)
qed

text \<open>
  C7. A repeated plain field is written with the type \<^verbatim>\<open>[]T\<close>, \<open>T\<close> being \<open>goType\<close> of
  its declared type (and a plain field that is not repeated with \<open>T\<close> itself). A map
  field is written with \<^verbatim>\<open>map[K]V\<close>, \<open>goType\<close> applied to the key type and to the
  value type separately; no \<^verbatim>\<open>[]\<close> is put in front of it, the handler leaves its
  \<open>repeated\<close> variable false for a map field.
\<close>

theorem field_type_token:
  \<open>(nf_Repeated ft \<longrightarrow>
      handleMessageField L b w (VNormalField ft) =
        (None, fold (\<lambda>o' b. unhandled L b ''field'' o') (nf_Options ft) b,
         w @ commentLines 1 (nf_Comment ft) @ [tab] @ ForceCamelIdentifier L (nf_Name ft)
           @ '' '' @ ''[]'' @ goType (nf_Type ft)
           @ '' `pb:"'' @ itoa (nf_Sequence ft) @ ''" json:"'' @ CamelToSnake L (nf_Name ft)
           @ ''"`\<newline>''))
   \<and> (\<not> nf_Repeated ft \<longrightarrow>
      handleMessageField L b w (VNormalField ft) =
        (None, fold (\<lambda>o' b. unhandled L b ''field'' o') (nf_Options ft) b,
         w @ commentLines 1 (nf_Comment ft) @ [tab] @ ForceCamelIdentifier L (nf_Name ft)
           @ '' '' @ goType (nf_Type ft)
           @ '' `pb:"'' @ itoa (nf_Sequence ft) @ ''" json:"'' @ CamelToSnake L (nf_Name ft)
           @ ''"`\<newline>''))
   \<and> handleMessageField L b w (VMapField mf) =
        (None, fold (\<lambda>o' b. unhandled L b ''field'' o') (mf_Options mf) b,
         w @ commentLines 1 (mf_Comment mf) @ [tab] @ ForceCamelIdentifier L (mf_Name mf)
           @ '' '' @ ''map['' @ goType (mf_KeyType mf) @ '']'' @ goType (mf_Type mf)
           @ '' `pb:"'' @ itoa (mf_Sequence mf) @ ''" json:"'' @ CamelToSnake L (mf_Name mf)
           @ ''"`\<newline>'')\<close>
  by (simp add: handleMessageField_normal handleMessageField_map memberText_def fieldText_def)

theorem field_type_token_witness:
  \<open>nf_Repeated tagsField
   \<and> snd (snd (handleMessageField asciiLib (newBuilder ''util.proto'') [] (VNormalField tagsField)))
       = tab # ''Tags []int32 `pb:"3" json:"tags"`\<newline>''
   \<and> snd (snd (handleMessageField asciiLib (newBuilder ''util.proto'') [] (VMapField attrsField)))
       = tab # ''Attrs map[string]int64 `pb:"4" json:"attrs"`\<newline>''\<close>
  using field_type_token [of tagsField asciiLib "newBuilder ''util.proto''" "[]" attrsField]
  by (simp add: tagsField_def attrsField_def at_def goType_def itoa_def natDigits.simps
        capitalize_def asciiUpper_def)

text \<open>
  C1. Let a service translate without error and let one of its methods carry the option
  \<^verbatim>\<open>(google.api.http)\<close> whose ordered map leaves a non-empty verb and a non-empty path.
  Then the block of the service contains the annotation \<^verbatim>\<open>// +gunk http.Match{\<close> with
  \<^verbatim>\<open>Method:\<close> the quoted upper-cased verb and \<^verbatim>\<open>Path:\<close> the quoted path; the line
  \<^verbatim>\<open>Body:\<close> is there exactly when the body is not empty, the body being the literal of
  the last \<^verbatim>\<open>body\<close> key (empty without such a key); and the import
  \<^verbatim>\<open>github.com/gunk/opt/http\<close> is marked as used.
\<close>

theorem routing_annotation:
  assumes "fst (handleService L b s) = None"
    and "VRPC r \<in> set (service_Elements s)"
    and "VOption opt \<in> set (rpc_Elements r)"
    and "option_Name opt = ''(google.api.http)''"
    and "orderedMap L b opt ([], [], []) (literal_OrderedMap (option_Constant opt)) =
           Inr (method, url, body)"
    and "method \<noteq> []" and "url \<noteq> []"
  shows "(\<exists>pre post.
            last (translatedDeclarations (snd (handleService L b s))) =
              pre @ [tab] @ ''// +gunk http.Match{\<newline>''
                @ [tab] @ ''//     Method: '' @ Quote L (ToUpper L method) @ '',\<newline>''
                @ [tab] @ ''//     Path: '' @ Quote L url @ '',\<newline>''
                @ (if body \<noteq> [] then [tab] @ ''//     Body: '' @ Quote L body @ '',\<newline>''
                   else [])
                @ [tab] @ ''// }\<newline>'' @ post)
         \<and> Mapping.lookup (importsUsed (snd (handleService L b s))) ''github.com/gunk/opt/http''
             = Some True
         \<and> body =
             (let bs = filter (\<lambda>l. named_Name l = ''body'')
                         (literal_OrderedMap (option_Constant opt))
              in if bs = [] then [] else literal_Source (named_Literal (last bs)))"
proof -
  have valid: "serviceValid (service_Elements s)"
    using assms(1) by (simp add: handleService_None)
  have vars: "orderedMapVars ([], [], []) (literal_OrderedMap (option_Constant opt)) =
      (method, url, body)"
    using orderedMap_Inr [OF assms(5)] by simp
  have routed: "routed opt"
    using assms(4,6,7) vars by (simp add: routed_def)
  have mt: "matchText L opt =
      [tab] @ ''// +gunk http.Match{\<newline>''
        @ [tab] @ ''//     Method: '' @ Quote L (ToUpper L method) @ '',\<newline>''
        @ [tab] @ ''//     Path: '' @ Quote L url @ '',\<newline>''
        @ (if body \<noteq> [] then [tab] @ ''//     Body: '' @ Quote L body @ '',\<newline>'' else [])
        @ [tab] @ ''// }\<newline>''"
    by (simp add: matchText_def vars httpMatch_text)
  obtain p1 q1 where o: "fst (rpcOptionsText L (rpc_Comment r) (rpc_Elements r)) =
      p1 @ matchText L opt @ q1"
    using rpcOptionsText_contains [OF assms(3) routed] by blast
  obtain p2 q2 j where sl: "serviceLines L 0 (service_Elements s) = p2 @ rpcText L j r @ q2"
    using serviceLines_contains [OF assms(2)] by blast
  define P where "P = commentLines 0 (service_Comment s) @ ''type '' @ service_Name s
      @ '' interface {\<newline>'' @ p2
      @ (if j > 0 \<and> (rpc_Comment r \<noteq> None \<or> rpc_Elements r \<noteq> []) then ''\<newline>'' else []) @ p1"
  define Q where "Q = q1
       @ commentLines 1 (snd (rpcOptionsText L (rpc_Comment r) (rpc_Elements r)))
       @ [tab] @ rpc_Name r
       @ ''('' @ (if rpc_RequestType r = ''google.protobuf.Empty'' then [] else rpc_RequestType r)
       @ '') '' @ (if rpc_ReturnsType r = ''google.protobuf.Empty'' then [] else rpc_ReturnsType r)
       @ ''\<newline>'' @ q2 @ ''}''"
  have "serviceBlock L s = P @ matchText L opt @ Q"
    by (simp add: serviceBlock_def sl rpcText_def o P_def Q_def)
  moreover have "last (translatedDeclarations (snd (handleService L b s))) = serviceBlock L s"
    using handleService_blocks [OF valid, of L b] by simp
  ultimately have "last (translatedDeclarations (snd (handleService L b s))) =
      P @ matchText L opt @ Q" by simp
  then have 1: "\<exists>pre post.
            last (translatedDeclarations (snd (handleService L b s))) =
              pre @ [tab] @ ''// +gunk http.Match{\<newline>''
                @ [tab] @ ''//     Method: '' @ Quote L (ToUpper L method) @ '',\<newline>''
                @ [tab] @ ''//     Path: '' @ Quote L url @ '',\<newline>''
                @ (if body \<noteq> [] then [tab] @ ''//     Body: '' @ Quote L body @ '',\<newline>''
                   else [])
                @ [tab] @ ''// }\<newline>'' @ post"
    unfolding mt by (intro exI [of _ P] exI [of _ Q]) simp
  have "serviceRouted (service_Elements s)"
    using serviceRouted_member [OF assms(2) rpcRouted_member [OF assms(3) routed]] .
  then have 2: "Mapping.lookup (importsUsed (snd (handleService L b s)))
      ''github.com/gunk/opt/http'' = Some True"
    using handleService_blocks [OF valid, of L b] by simp
  have 3: "body =
             (let bs = filter (\<lambda>l. named_Name l = ''body'')
                         (literal_OrderedMap (option_Constant opt))
              in if bs = [] then [] else literal_Source (named_Literal (last bs)))"
    using orderedMapVars_body [of "[]" "[]" "[]" "literal_OrderedMap (option_Constant opt)"]
    by (simp add: vars)
  from 1 2 3 show ?thesis by blast
qed

theorem routing_annotation_witness:
  \<open>fst (handleService asciiLib (newBuilder ''util.proto'') utilService) = None
   \<and> VRPC statusRPC \<in> set (service_Elements utilService)
   \<and> VOption statusRoute \<in> set (rpc_Elements statusRPC)
   \<and> orderedMap asciiLib (newBuilder ''util.proto'') statusRoute ([], [], [])
         (literal_OrderedMap (option_Constant statusRoute)) = Inr (''get'', ''/v1/echo'', [])
   \<and> (\<exists>pre post.
         last (translatedDeclarations
                 (snd (handleService asciiLib (newBuilder ''util.proto'') utilService))) =
           pre @ [tab] @ ''// +gunk http.Match{\<newline>''
             @ [tab] @ ''//     Method: "GET",\<newline>''
             @ [tab] @ ''//     Path: "/v1/echo",\<newline>''
             @ [tab] @ ''// }\<newline>'' @ post)
   \<and> VRPC echoRPC \<in> set (service_Elements utilService)
   \<and> VOption echoRoute \<in> set (rpc_Elements echoRPC)
   \<and> orderedMap asciiLib (newBuilder ''util.proto'') echoRoute ([], [], [])
         (literal_OrderedMap (option_Constant echoRoute)) = Inr (''post'', ''/v1/echo'', ''*'')
   \<and> (\<exists>pre post.
         last (translatedDeclarations
                 (snd (handleService asciiLib (newBuilder ''util.proto'') utilService))) =
           pre @ [tab] @ ''// +gunk http.Match{\<newline>''
             @ [tab] @ ''//     Method: "POST",\<newline>''
             @ [tab] @ ''//     Path: "/v1/echo",\<newline>''
             @ [tab] @ ''//     Body: "*",\<newline>''
             @ [tab] @ ''// }\<newline>'' @ post)
   \<and> Mapping.lookup
         (importsUsed (snd (handleService asciiLib (newBuilder ''util.proto'') utilService)))
         ''github.com/gunk/opt/http'' = Some True\<close>
proof -
  have ok: "fst (handleService asciiLib (newBuilder ''util.proto'') utilService) = None"
    by code_simp
  have r1: "VRPC statusRPC \<in> set (service_Elements utilService)"
    and r2: "VRPC echoRPC \<in> set (service_Elements utilService)"
    by (simp_all add: utilService_def)
  have o1: "VOption statusRoute \<in> set (rpc_Elements statusRPC)"
    and o2: "VOption echoRoute \<in> set (rpc_Elements echoRPC)"
    by (simp_all add: statusRPC_def echoRPC_def)
  have n1: "option_Name statusRoute = ''(google.api.http)''"
    and n2: "option_Name echoRoute = ''(google.api.http)''"
    by (simp_all add: statusRoute_def echoRoute_def)
  have v1: "orderedMap asciiLib (newBuilder ''util.proto'') statusRoute ([], [], [])
         (literal_OrderedMap (option_Constant statusRoute)) = Inr (''get'', ''/v1/echo'', [])"
    by code_simp
  have v2: "orderedMap asciiLib (newBuilder ''util.proto'') echoRoute ([], [], [])
         (literal_OrderedMap (option_Constant echoRoute)) = Inr (''post'', ''/v1/echo'', ''*'')"
    by code_simp
  have q: \<open>asciiQuote (asciiUpper ''get'') = ''"GET"''\<close>
    \<open>asciiQuote (asciiUpper ''post'') = ''"POST"''\<close>
    \<open>asciiQuote ''/v1/echo'' = ''"/v1/echo"''\<close> \<open>asciiQuote ''*'' = ''"*"''\<close>
    by code_simp+
  show ?thesis
    using routing_annotation [OF ok r1 o1 n1 v1] routing_annotation [OF ok r2 o2 n2 v2]
      ok r1 r2 o1 o2 v1 v2
    by (simp add: q)
qed

text \<open>
  C5. When the ordered map of a routing annotation holds string literals and at least
  one key other than \<^verbatim>\<open>body\<close>, the verb is the last such key and the path is its
  literal, however many such keys there are. The option is then handled without an
  error and without a line on the diagnostics stream, and what is written is the
  annotation for that last key.
\<close>

theorem last_verb_wins:
  assumes "list_all (\<lambda>l. literal_IsString (named_Literal l)) ls"
    and "vs = filter (\<lambda>l. named_Name l \<noteq> ''body'') ls"
    and "vs \<noteq> []"
    and "option_Name opt = ''(google.api.http)''"
    and "literal_OrderedMap (option_Constant opt) = ls"
  shows "\<exists>body.
           orderedMap L b opt ([], [], []) ls =
             Inr (named_Name (last vs), literal_Source (named_Literal (last vs)), body)
           \<and> fst (rpcElements L b w r c [VOption opt]) = None
           \<and> stderr (fst (snd (rpcElements L b w r c [VOption opt]))) = stderr b
           \<and> (named_Name (last vs) \<noteq> [] \<and> literal_Source (named_Literal (last vs)) \<noteq> [] \<longrightarrow>
                fst (snd (snd (rpcElements L b w r c [VOption opt]))) =
                  w @ (if c \<noteq> None then commentLines 1 c @ [tab] @ ''//\<newline>'' else [])
                    @ httpMatch L [] (named_Name (last vs))
                        (literal_Source (named_Literal (last vs))) body)"
proof -
  obtain "method" "url" "body" where v: "orderedMapVars ([], [], []) ls = (method, url, body)"
    by (cases "orderedMapVars ([], [], []) ls")
  have m: "method = named_Name (last vs)" and u: "url = literal_Source (named_Literal (last vs))"
    using orderedMapVars_verb [of "[]" "[]" "[]" ls] assms(2,3) by (simp_all add: v Let_def)
  have om: "orderedMap L b opt ([], [], []) ls = Inr (method, url, body)"
    using orderedMap_ok [OF assms(1), of L b opt "[]" "[]" "[]"] v by simp
  have ne: "ls \<noteq> []" using assms(2,3) by auto
  have rv: "rpcValid [VOption opt]"
    using assms(1,5) ne by (simp add: rpcValid_def routingValid_def)
  have none: "fst (rpcElements L b w r c [VOption opt]) = None"
    using rv by (simp only: rpcElements_None)
  have err: "stderr (fst (snd (rpcElements L b w r c [VOption opt]))) = stderr b"
    using assms(4,5) ne om by (simp add: Let_def)
  have wr: "fst (snd (snd (rpcElements L b w r c [VOption opt]))) =
                  w @ (if c \<noteq> None then commentLines 1 c @ [tab] @ ''//\<newline>'' else [])
                    @ httpMatch L [] method url body"
    if "method \<noteq> []" "url \<noteq> []"
    using that assms(4,5) ne om
    by (simp add: Let_def format_text tabs_def httpMatch_text)
  show ?thesis
    using om none err wr unfolding m u by blast
qed

theorem last_verb_wins_witness:
  \<open>list_all (\<lambda>l. literal_IsString (named_Literal l)) twoVerbs
   \<and> filter (\<lambda>l. named_Name l \<noteq> ''body'') twoVerbs = twoVerbs \<and> length twoVerbs = 2
   \<and> last twoVerbs = NamedLiteral ''post'' (str ''/v1/b'')
   \<and> (\<exists>body. orderedMap asciiLib (newBuilder ''util.proto'') twoVerbsRoute ([], [], []) twoVerbs =
         Inr (''post'', ''/v1/b'', body))
   \<and> fst (rpcElements asciiLib (newBuilder ''util.proto'') [] echoRPC None [VOption twoVerbsRoute])
       = None
   \<and> stderr (fst (snd (rpcElements asciiLib (newBuilder ''util.proto'') [] echoRPC None
        [VOption twoVerbsRoute]))) = []
   \<and> fst (snd (snd (rpcElements asciiLib (newBuilder ''util.proto'') [] echoRPC None
        [VOption twoVerbsRoute]))) =
       [tab] @ ''// +gunk http.Match{\<newline>''
         @ [tab] @ ''//     Method: "POST",\<newline>''
         @ [tab] @ ''//     Path: "/v1/b",\<newline>''
         @ [tab] @ ''// }\<newline>''\<close>
proof -
  have s: "list_all (\<lambda>l. literal_IsString (named_Literal l)) twoVerbs"
    and f: "twoVerbs = filter (\<lambda>l. named_Name l \<noteq> ''body'') twoVerbs"
    and n: "twoVerbs \<noteq> []"
    and l: "last twoVerbs = NamedLiteral ''post'' (str ''/v1/b'')"
    by (simp_all add: twoVerbs_def str_def)
  have o: "option_Name twoVerbsRoute = ''(google.api.http)''"
    "literal_OrderedMap (option_Constant twoVerbsRoute) = twoVerbs"
    by (simp_all add: twoVerbsRoute_def)
  have t: \<open>fst (snd (snd (rpcElements asciiLib (newBuilder ''util.proto'') [] echoRPC None
        [VOption twoVerbsRoute]))) =
       [tab] @ ''// +gunk http.Match{\<newline>''
         @ [tab] @ ''//     Method: "POST",\<newline>''
         @ [tab] @ ''//     Path: "/v1/b",\<newline>''
         @ [tab] @ ''// }\<newline>''\<close>
    by code_simp
  let ?B = "newBuilder ''util.proto''"
  from last_verb_wins [OF s f n o, of asciiLib ?B "[]" echoRPC None]
  obtain body where
    1: "orderedMap asciiLib ?B twoVerbsRoute ([], [], []) twoVerbs =
         Inr (named_Name (last twoVerbs), literal_Source (named_Literal (last twoVerbs)), body)"
    and 2: "fst (rpcElements asciiLib ?B [] echoRPC None [VOption twoVerbsRoute]) = None"
    and 3: "stderr (fst (snd (rpcElements asciiLib ?B [] echoRPC None [VOption twoVerbsRoute]))) =
         stderr ?B"
    by blast
  have e: "\<exists>body. orderedMap asciiLib ?B twoVerbsRoute ([], [], []) twoVerbs =
         Inr (''post'', ''/v1/b'', body)"
    using 1 by (auto simp: l str_def)
  have 4: "stderr ?B = []" by (simp add: newBuilder_def)
  have 5: "length twoVerbs = 2" by (simp add: twoVerbs_def)
  show ?thesis
    using s f [symmetric] l e 2 3 [unfolded 4] t 5 by blast
qed

text \<open>
  C10. Let \<^verbatim>\<open>convertFile\<close> succeed with the builder \<open>b\<close>, and let the range over
  \<^verbatim>\<open>importsUsed\<close> visit the keys in an order Go allows. The keys of \<^verbatim>\<open>importsUsed\<close> are
  the set of required imports, however many options and routing annotations asked
  for each of them; every required import is visited once and no other path is; the
  import block has one line for each path visited; and marking a path that is marked
  already leaves the map as it is.
\<close>

theorem imports_once:
  assumes "fst (convertFile L name ds order) = Inr text"
    and "b = snd (convertFile L name ds order)"
    and "rangeOrder (importsUsed b) (order (importsUsed b))"
  shows "Mapping.keys (importsUsed b) = requiredImports L ds
     \<and> (\<forall>p. count_list (order (importsUsed b)) p = (if p \<in> requiredImports L ds then 1 else 0))
     \<and> handleImports L b (order (importsUsed b)) =
         (if requiredImports L ds = {} \<and> imports' b = [] then []
          else ''import (''
            @ concat (map (\<lambda>i. ''\<newline>'' @ (if Quote L i = [] then []
                                           else [tab] @ Sprintf0 L (Quote L i)))
                        (order (importsUsed b)))
            @ concat (map (\<lambda>i. ''\<newline>'' @ [tab] @ ''// '' @ Quote L (import_Filename i))
                        (imports' b))
            @ ''\<newline>)'')
     \<and> Mapping.update p True (Mapping.update p True (importsUsed b)) =
         Mapping.update p True (importsUsed b)"
proof -
  have k: "Mapping.keys (importsUsed b) = requiredImports L ds"
    using convertFile_imports [OF assms(1)] assms(2) by simp
  have e: "Mapping.is_empty (importsUsed b) = (requiredImports L ds = {})"
    using k by (simp add: Mapping.is_empty_def)
  show ?thesis
    using k rangeOrder_count [OF assms(3)]
    by (simp add: handleImports_text e update_update)
qed

theorem imports_once_witness:
  \<open>\<not> isl (fst (convertFile asciiLib ''util.proto'' javaDocument javaOrder))
   \<and> rangeOrder (importsUsed (snd (convertFile asciiLib ''util.proto'' javaDocument javaOrder)))
        (javaOrder (importsUsed (snd (convertFile asciiLib ''util.proto'' javaDocument javaOrder))))
   \<and> requiredImports asciiLib javaDocument =
        {''github.com/gunk/opt/file/java'', ''github.com/gunk/opt/http''}
   \<and> count_list
        (javaOrder (importsUsed (snd (convertFile asciiLib ''util.proto'' javaDocument javaOrder))))
        ''github.com/gunk/opt/http'' = 1
   \<and> handleImports asciiLib (snd (convertFile asciiLib ''util.proto'' javaDocument javaOrder))
        (javaOrder (importsUsed (snd (convertFile asciiLib ''util.proto'' javaDocument javaOrder))))
       = ''import (\<newline>'' @ [tab] @ ''"github.com/gunk/opt/file/java"\<newline>''
           @ [tab] @ ''"github.com/gunk/opt/http"\<newline>)''\<close>
proof -
  let ?r = "convertFile asciiLib ''util.proto'' javaDocument javaOrder"
  have n: "\<not> isl (fst ?r)" by code_simp
  then have ok: "fst ?r = Inr (projr (fst ?r))" by (cases "fst ?r") simp_all
  have ro: "rangeOrder (importsUsed (snd ?r)) (javaOrder (importsUsed (snd ?r)))"
    by code_simp
  have req: "requiredImports asciiLib javaDocument =
        {''github.com/gunk/opt/file/java'', ''github.com/gunk/opt/http''}"
    by code_simp
  have im: "imports' (snd ?r) = []" by code_simp
  have q: \<open>asciiQuote ''github.com/gunk/opt/file/java'' = ''"github.com/gunk/opt/file/java"''\<close>
    \<open>asciiQuote ''github.com/gunk/opt/http'' = ''"github.com/gunk/opt/http"''\<close>
    by code_simp+
  show ?thesis
    using imports_once [OF ok refl ro] n ro
    by (simp add: req im javaOrder_def q)
qed

text \<open>
  C2. The position that \<^verbatim>\<open>handleEnum\<close> compares an enum value with is its index among
  all elements of the enum, options included. For the enum \<open>levelEnum\<close>, whose values
  are 1, 2, 3 behind one option, every value equals its index: the converter takes the
  iota form, and since no value has index 0 it writes the three bare names and no line
  \<^verbatim>\<open>= iota\<close>, where the values 1, 2, 3 call for \<^verbatim>\<open>Low Level = 1\<close> and so on.
\<close>

theorem enum_option_shifts_iota:
  \<open>concat (map (\<lambda>c. case c of VEnumField ef \<Rightarrow> [ef_Integer ef] | _ \<Rightarrow> [])
             (enum_Elements levelEnum)) = [1, 2, 3]
   \<and> snd (snd (enumCheck asciiLib (newBuilder ''util.proto'') levelEnum 0 True
                  (enum_Elements levelEnum))) = True
   \<and> handleEnum asciiLib (newBuilder ''util.proto'') levelEnum =
     (None,
      (newBuilder ''util.proto'')
        \<lparr>translatedDeclarations :=
           [''type Level int\<newline>\<newline>const (\<newline>'' @ [tab] @ ''Low\<newline>'' @ [tab] @ ''Mid\<newline>''
              @ [tab] @ ''High\<newline>)''],
         stderr := [''util.proto:2:3: unhandled enum option "deprecated"'']\<rparr>)\<close>
  by code_simp

text \<open>
  C3. For the file option \<^verbatim>\<open>swift_prefix\<close> the converter marks the import
  \<^verbatim>\<open>github.com/gunk/opt/file/swift\<close> but leaves the annotation empty: the line written
  is \<^verbatim>\<open>// +gunk swift.\<close>, without an annotation name and without the value \<^verbatim>\<open>"UT"\<close>.
\<close>

theorem swift_prefix_annotation:
  \<open>fst (convertFile asciiLib ''util.proto'' swiftDocument
          (\<lambda>m. [''github.com/gunk/opt/file/swift''])) =
     Inr (''// +gunk swift.\<newline>package util\<newline>\<newline>import (\<newline>'' @ [tab]
            @ ''"github.com/gunk/opt/file/swift"\<newline>)\<newline>'')\<close>
  by code_simp

text \<open>
  C6. The enum \<open>kindEnum\<close> holds a comment, which is neither an enum field nor an option.
  As a top-level declaration it makes the converter return an error with the position
  of the enum. Nested in a message the same enum does not: \<^verbatim>\<open>handleMessage\<close> drops the
  error of \<^verbatim>\<open>handleEnum\<close>, \<^verbatim>\<open>convertFile\<close> returns a text, and the text holds the message
  and nothing of the enum.
\<close>

theorem nested_enum_error_dropped:
  \<open>fst (handleProtoType asciiLib (newBuilder ''util.proto'') (VEnum kindEnum)) =
     Some (Errorf ''util.proto:3:3: unexpected type *proto.Comment in enum, expected enum field'')
   \<and> convertFile asciiLib ''util.proto'' holderDocument (\<lambda>m. []) =
       (Inr ''package util\<newline>\<newline>\<newline>type Holder struct {\<newline>}\<newline>'',
        (newBuilder ''util.proto'')
          \<lparr>translatedDeclarations := [''type Holder struct {\<newline>}''],
           pkg := Some (Package None ''util'')\<rparr>)\<close>
  by code_simp

text \<open>
  C9. The document \<open>holderDocument\<close> is translated without an error, and its message
  holds the nested enum \<open>kindEnum\<close>. The declarations written are the block of the
  message alone: the nested enum is not written as a declaration in front of it, nor
  anywhere else.
\<close>

theorem nested_enum_not_hoisted:
  \<open>holderDocument =
     [VPackage (Package None ''util''),
      VMessage (Message (at 2 1) None ''Holder'' [VEnum kindEnum])]
   \<and> \<not> isl (fst (convertFile asciiLib ''util.proto'' holderDocument (\<lambda>m. [])))
   \<and> translatedDeclarations (snd (convertFile asciiLib ''util.proto'' holderDocument (\<lambda>m. []))) =
       [''type Holder struct {\<newline>}'']
   \<and> concat (map (declarationBlocks asciiLib) holderDocument) =
       [''type Kind int\<newline>\<newline>const (\<newline>'' @ [tab] @ ''A Kind = iota\<newline>)'',
        ''type Holder struct {\<newline>}'']\<close>
  by code_simp

end
